theory Spec2Isabelle
  imports Complex_Main "HOL-Library.Word" "HOL-Library.Sublist" "HOL-Library.Log_Nat"
begin

section \<open>The ECMAScript objects that Tensor.ts works on\<close>

text \<open>
  \<^verbatim>\<open>Tensor.ts\<close> holds a \<^verbatim>\<open>Uint8Array\<close> and hands its \<^verbatim>\<open>buffer\<close>,
  \<^verbatim>\<open>byteOffset\<close> and \<^verbatim>\<open>byteLength\<close> to one of ten typed-array constructors.
  An \<^verbatim>\<open>ArrayBuffer\<close> is a shared mutable object, so buffers live in a store and
  every view holds a reference into it. A buffer is either detached or a block of
  bytes. Only fixed-length, non-shared buffers are modelled.
\<close>

type_synonym byte = "8 word"
type_synonym ref = nat

datatype ArrayBuffer = Detached | Data "byte list"

type_synonym heap = "ref \<Rightarrow> ArrayBuffer"

text \<open>
  What a JavaScript \<^verbatim>\<open>throw\<close> carries: the \<^verbatim>\<open>Error\<close> that line 38 of
  \<^verbatim>\<open>Tensor.ts\<close> builds, with its message, and the two errors that the typed-array
  constructors raise (their messages are implementation-defined and left out).
\<close>

datatype error = Error string | RangeError | TypeError

text \<open>The constructors of the table \<^verbatim>\<open>typedArrays\<close>, and \<^verbatim>\<open>Uint8Array\<close>, the type of
  the field \<^verbatim>\<open>elements\<close>.\<close>

datatype TypedArrayConstructor =
    Float64Array | BigInt64Array | BigUint64Array | Float32Array | Int32Array
  | Uint32Array | Uint16Array | Int16Array | Uint8ClampedArray | Int8Array | Uint8Array

text \<open>The internal slots of a typed array. \<^verbatim>\<open>[[ByteLength]]\<close> is
  \<^verbatim>\<open>[[ArrayLength]]\<close> times the element size and is not stored.\<close>

record TypedArray =
  TypedArrayName :: TypedArrayConstructor
  ViewedArrayBuffer :: ref
  ByteOffset :: nat
  ArrayLength :: nat

text \<open>ECMAScript, table "The TypedArray Constructors": element size in bytes.\<close>

fun TypedArrayElementSize :: "TypedArrayConstructor \<Rightarrow> nat" where
  "TypedArrayElementSize Float64Array = 8"
| "TypedArrayElementSize BigInt64Array = 8"
| "TypedArrayElementSize BigUint64Array = 8"
| "TypedArrayElementSize Float32Array = 4"
| "TypedArrayElementSize Int32Array = 4"
| "TypedArrayElementSize Uint32Array = 4"
| "TypedArrayElementSize Uint16Array = 2"
| "TypedArrayElementSize Int16Array = 2"
| "TypedArrayElementSize Uint8ClampedArray = 1"
| "TypedArrayElementSize Int8Array = 1"
| "TypedArrayElementSize Uint8Array = 1"

definition IsDetachedBuffer :: "heap \<Rightarrow> ref \<Rightarrow> bool" where
  "IsDetachedBuffer h b = (case h b of Detached \<Rightarrow> True | Data bs \<Rightarrow> False)"

definition ArrayBufferByteLength :: "heap \<Rightarrow> ref \<Rightarrow> nat" where
  "ArrayBufferByteLength h b = (case h b of Detached \<Rightarrow> 0 | Data bs \<Rightarrow> length bs)"

text \<open>The accessors \<^verbatim>\<open>buffer\<close>, \<^verbatim>\<open>byteOffset\<close> and \<^verbatim>\<open>byteLength\<close> of
  \<^verbatim>\<open>%TypedArray%.prototype\<close>: the last two answer 0 once the buffer is detached.\<close>

definition get_buffer :: "TypedArray \<Rightarrow> ref" where
  "get_buffer ta = ViewedArrayBuffer ta"

definition get_byteOffset :: "heap \<Rightarrow> TypedArray \<Rightarrow> nat" where
  "get_byteOffset h ta =
     (if IsDetachedBuffer h (ViewedArrayBuffer ta) then 0 else ByteOffset ta)"

definition get_byteLength :: "heap \<Rightarrow> TypedArray \<Rightarrow> nat" where
  "get_byteLength h ta =
     (if IsDetachedBuffer h (ViewedArrayBuffer ta) then 0
      else ArrayLength ta * TypedArrayElementSize (TypedArrayName ta))"

text \<open>
  \<^verbatim>\<open>ToIntegerOrInfinity\<close> truncates towards zero and \<^verbatim>\<open>ToIndex\<close> refuses what lies
  outside \<open>0 .. 2^53 - 1\<close>. The argument is the mathematical value of a finite
  Number; the Numbers of \<^verbatim>\<open>Tensor.ts\<close> are a byte offset and the quotient of a byte
  length by 1, 2, 4 or 8, which binary floating point computes exactly.
\<close>

definition ToIntegerOrInfinity :: "rat \<Rightarrow> int" where
  "ToIntegerOrInfinity x = (if x < 0 then \<lceil>x\<rceil> else \<lfloor>x\<rfloor>)"

definition ToIndex :: "rat \<Rightarrow> error + nat" where
  "ToIndex v =
     (let integer = ToIntegerOrInfinity v
      in if integer < 0 \<or> 2 ^ 53 - 1 < integer then Inl RangeError
         else Inr (nat integer))"

text \<open>
  \<^verbatim>\<open>new C(buffer, byteOffset, length)\<close> with all three arguments given:
  ECMAScript's \<^verbatim>\<open>InitializeTypedArrayFromArrayBuffer\<close>, in the order of its steps.
  The offset must be a multiple of the element size, the buffer must not be
  detached, and the view must end inside the buffer.
\<close>

definition InitializeTypedArrayFromArrayBuffer ::
    "heap \<Rightarrow> TypedArrayConstructor \<Rightarrow> ref \<Rightarrow> rat \<Rightarrow> rat \<Rightarrow> error + TypedArray" where
  "InitializeTypedArrayFromArrayBuffer h C buffer byteOffset len =
     (let elementSize = TypedArrayElementSize C in
      case ToIndex byteOffset of
        Inl e \<Rightarrow> Inl e
      | Inr offset \<Rightarrow>
          if offset mod elementSize \<noteq> 0 then Inl RangeError
          else (case ToIndex len of
            Inl e \<Rightarrow> Inl e
          | Inr newLength \<Rightarrow>
              if IsDetachedBuffer h buffer then Inl TypeError
              else let bufferByteLength = ArrayBufferByteLength h buffer;
                       newByteLength = newLength * elementSize
                   in if bufferByteLength < offset + newByteLength then Inl RangeError
                      else Inr \<lparr> TypedArrayName = C, ViewedArrayBuffer = buffer,
                                 ByteOffset = offset, ArrayLength = newLength \<rparr>))"

section \<open>Shape, as far as Tensor.ts uses it\<close>

text \<open>The keys of \<^verbatim>\<open>typedArrays\<close>: the type \<^verbatim>\<open>keyof typeof typedArrays\<close> of the
  parameter \<^verbatim>\<open>elementType\<close>, a closed union of ten string literals.\<close>

datatype ElementKind = f64 | i64 | u64 | f32 | i32 | u32 | u16 | i16 | u8 | i8

text \<open>The string literal each key stands for, as a template literal prints it.\<close>

fun kind_name :: "ElementKind \<Rightarrow> string" where
  "kind_name f64 = ''f64''"
| "kind_name i64 = ''i64''"
| "kind_name u64 = ''u64''"
| "kind_name f32 = ''f32''"
| "kind_name i32 = ''i32''"
| "kind_name u32 = ''u32''"
| "kind_name u16 = ''u16''"
| "kind_name i16 = ''i16''"
| "kind_name u8 = ''u8''"
| "kind_name i8 = ''i8''"

text \<open>
  Modelled from the spec: the class \<^verbatim>\<open>Shape\<close> (\<^verbatim>\<open>./Shape\<close>) is not among the
  sources. The spec's ShapeDescriptor "holds an element-kind tag (one of a fixed
  enumeration of numeric kinds) and an ordered sequence of non-negative dimension
  sizes". The sequence is a JavaScript array, an object of its own: the field holds
  a reference to it.
\<close>

record Shape =
  type :: ElementKind
  dimensions :: ref

text \<open>
  Modelled from the spec: the table \<^verbatim>\<open>Shape.ByteSize\<close> is not among the sources.
  The spec maps the kinds f64, f32, i64, i32, i16, i8, u64, u32, u16, u8 to the
  byte widths 8, 4, 8, 4, 2, 1, 8, 4, 2, 1.
\<close>

fun ByteSize :: "ElementKind \<Rightarrow> nat" where
  "ByteSize f64 = 8"
| "ByteSize f32 = 4"
| "ByteSize i64 = 8"
| "ByteSize i32 = 4"
| "ByteSize i16 = 2"
| "ByteSize i8 = 1"
| "ByteSize u64 = 8"
| "ByteSize u32 = 4"
| "ByteSize u16 = 2"
| "ByteSize u8 = 1"

section \<open>Tensor.ts\<close>

text \<open>The table \<^verbatim>\<open>typedArrays\<close>, lines 3 to 14.\<close>

fun typedArrays :: "ElementKind \<Rightarrow> TypedArrayConstructor" where
  "typedArrays f64 = Float64Array"
| "typedArrays i64 = BigInt64Array"
| "typedArrays u64 = BigUint64Array"
| "typedArrays f32 = Float32Array"
| "typedArrays i32 = Int32Array"
| "typedArrays u32 = Uint32Array"
| "typedArrays u16 = Uint16Array"
| "typedArrays i16 = Int16Array"
| "typedArrays u8 = Uint8ClampedArray"
| "typedArrays i8 = Int8Array"

text \<open>The class \<^verbatim>\<open>Tensor\<close>: two read-only fields that the constructor assigns from
  its arguments (lines 17 to 23). \<^verbatim>\<open>elements\<close> is declared a \<^verbatim>\<open>Uint8Array\<close>;
  \<^verbatim>\<open>asTypedArray\<close> reads its three accessors only, which every typed array has,
  so the field may hold any.\<close>

record Tensor =
  elements :: TypedArray
  shape :: Shape

definition Tensor_new :: "Shape \<Rightarrow> TypedArray \<Rightarrow> Tensor" where
  "Tensor_new shape0 elements0 = \<lparr> elements = elements0, shape = shape0 \<rparr>"

text \<open>
  \<^verbatim>\<open>asTypedArray\<close>, lines 36 to 46. \<^verbatim>\<open>Shape.toString\<close> is not among the sources
  and is the parameter \<open>toString\<close>. The quotient of line 42 is a Number, not an
  integer: the division is exact, and the constructor's \<^verbatim>\<open>ToIndex\<close> truncates it.
  No \<^verbatim>\<open>ByteSize\<close> is 0, so the quotient is never JavaScript's \<^verbatim>\<open>Infinity\<close>.
  The source's \<^verbatim>\<open>length\<close> is \<open>len\<close> here.
\<close>

definition asTypedArray ::
    "(Shape \<Rightarrow> string) \<Rightarrow> heap \<Rightarrow> Tensor \<Rightarrow> ElementKind \<Rightarrow> error + TypedArray" where
  "asTypedArray toString h this elementType =
     (if type (shape this) \<noteq> elementType
      then Inl (Error (''Attempting to interpret a '' @ toString (shape this)
                        @ '' as a '' @ kind_name elementType @ '' tensor''))
      else
        let buffer = get_buffer (elements this);
            byteOffset = get_byteOffset h (elements this);
            byteLength = get_byteLength h (elements this);
            len = rat_of_nat byteLength / rat_of_nat (ByteSize (type (shape this)));
            constructor = typedArrays elementType
        in InitializeTypedArrayFromArrayBuffer h constructor buffer
             (rat_of_nat byteOffset) len)"

text \<open>
  A JavaScript array is an object in the store. Its elements are finite Numbers,
  a hole is \<open>None\<close>; \<open>others\<close> holds the properties whose numeric key is not an
  array index (\<open>2^32 - 1\<close> and above); a frozen array refuses every write.
\<close>

record NumberArray =
  items :: "rat option list"
  others :: "nat \<rightharpoonup> rat"
  frozen :: bool

text \<open>
  A reference to an array as TypeScript code holds it: the object, and the type
  the code declares for it, \<^verbatim>\<open>number[]\<close> or \<^verbatim>\<open>readonly number[]\<close>. The type
  exists at compile time only; it is kept here so that what the checker lets a
  caller write can be stated.
\<close>

datatype array_type = number_array | readonly_number_array

record ArrayValue =
  static_type :: array_type
  target :: ref

text \<open>The accessors of lines 48 to 54, written as the state transformers they are:
  each takes the view and the store, answers, and hands both back. Line 52 declares
  the result of \<^verbatim>\<open>dimensions\<close> a \<^verbatim>\<open>readonly number[]\<close>; line 53 returns the
  shape's own array.\<close>

record world =
  buffers :: heap
  arrays :: "ref \<Rightarrow> NumberArray"

type_synonym state = "Tensor \<times> world"

definition get_elementType :: "state \<Rightarrow> (error + ElementKind) \<times> state" where
  "get_elementType s = (case s of (this, w) \<Rightarrow> (Inr (type (shape this)), (this, w)))"

definition get_dimensions :: "state \<Rightarrow> (error + ArrayValue) \<times> state" where
  "get_dimensions s =
     (case s of (this, w) \<Rightarrow>
        (Inr \<lparr> static_type = readonly_number_array, target = dimensions (shape this) \<rparr>,
         (this, w)))"

text \<open>Calling a method \<open>n\<close> times in a row, each call on the state the previous one
  left: the answers in order, and the final state.\<close>

fun repeat_call ::
    "nat \<Rightarrow> (state \<Rightarrow> (error + 'a) \<times> state) \<Rightarrow> state \<Rightarrow> (error + 'a) list \<times> state" where
  "repeat_call 0 m s = ([], s)"
| "repeat_call (Suc n) m s =
     (case m s of (r, s') \<Rightarrow>
        (case repeat_call n m s' of (rs, s'') \<Rightarrow> (r # rs, s'')))"

section \<open>What a caller can do with the values it is handed\<close>

text \<open>
  A view is well formed when, unless its buffer is detached, it ends inside the
  buffer; no buffer is longer than \<open>2^53 - 1\<close> bytes. ECMAScript keeps this true
  of every typed array over a fixed-length buffer.
\<close>

definition wf_view :: "heap \<Rightarrow> TypedArray \<Rightarrow> bool" where
  "wf_view h ta =
     (case h (ViewedArrayBuffer ta) of
        Detached \<Rightarrow> True
      | Data block \<Rightarrow>
          ByteOffset ta + ArrayLength ta * TypedArrayElementSize (TypedArrayName ta)
            \<le> length block
          \<and> length block \<le> 2 ^ 53 - 1)"

definition view_in_buffer :: "heap \<Rightarrow> TypedArray \<Rightarrow> bool" where
  "view_in_buffer h ta =
     (case h (ViewedArrayBuffer ta) of
        Detached \<Rightarrow> False
      | Data block \<Rightarrow>
          ByteOffset ta + ArrayLength ta * TypedArrayElementSize (TypedArrayName ta)
            \<le> length block)"

subsection \<open>Element access, as bytes\<close>

text \<open>
  \<^verbatim>\<open>ta[i]\<close> and \<^verbatim>\<open>ta[i] = v\<close> for an index \<open>i\<close> that is a natural number
  (\<^verbatim>\<open>TypedArrayGetElement\<close>, \<^verbatim>\<open>TypedArraySetElement\<close>): an index that is not valid
  reads \<^verbatim>\<open>undefined\<close> and writes nothing. First the bytes that
  \<^verbatim>\<open>GetValueFromBuffer\<close> and \<^verbatim>\<open>SetValueInBuffer\<close> move, then the numbers they stand
  for.
\<close>

definition IsValidIntegerIndex :: "heap \<Rightarrow> TypedArray \<Rightarrow> nat \<Rightarrow> bool" where
  "IsValidIntegerIndex h ta i =
     (\<not> IsDetachedBuffer h (ViewedArrayBuffer ta) \<and> i < ArrayLength ta)"

definition load_bytes :: "byte list \<Rightarrow> nat \<Rightarrow> nat \<Rightarrow> byte list" where
  "load_bytes block byteIndex n = take n (drop byteIndex block)"

fun store_bytes :: "byte list \<Rightarrow> nat \<Rightarrow> byte list \<Rightarrow> byte list" where
  "store_bytes block byteIndex [] = block"
| "store_bytes block byteIndex (b # raw) =
     store_bytes (block[byteIndex := b]) (Suc byteIndex) raw"

definition GetRawBytes :: "heap \<Rightarrow> TypedArray \<Rightarrow> nat \<Rightarrow> byte list option" where
  "GetRawBytes h ta i =
     (if IsValidIntegerIndex h ta i
      then (case h (ViewedArrayBuffer ta) of
              Detached \<Rightarrow> None
            | Data block \<Rightarrow>
                let elementSize = TypedArrayElementSize (TypedArrayName ta);
                    byteIndexInBuffer = i * elementSize + ByteOffset ta
                in Some (load_bytes block byteIndexInBuffer elementSize))
      else None)"

definition SetRawBytes :: "heap \<Rightarrow> TypedArray \<Rightarrow> nat \<Rightarrow> byte list \<Rightarrow> heap" where
  "SetRawBytes h ta i rawBytes =
     (if IsValidIntegerIndex h ta i
      then (case h (ViewedArrayBuffer ta) of
              Detached \<Rightarrow> h
            | Data block \<Rightarrow>
                let elementSize = TypedArrayElementSize (TypedArrayName ta);
                    byteIndexInBuffer = i * elementSize + ByteOffset ta
                in h(ViewedArrayBuffer ta := Data (store_bytes block byteIndexInBuffer rawBytes)))
      else h)"

subsection \<open>Element access, as numbers\<close>

text \<open>
  A value a caller can write and read: \<^verbatim>\<open>undefined\<close>, a Number, or a BigInt. A
  Number is \<open>Number x\<close>, finite and not \<^verbatim>\<open>-0\<close>, with its mathematical value \<open>x\<close>,
  or one of \<^verbatim>\<open>NaN\<close>, \<^verbatim>\<open>Infinity\<close>, \<^verbatim>\<open>-Infinity\<close> and \<^verbatim>\<open>-0\<close>. Bytes are in
  little-endian order, as on every current platform.
\<close>

datatype jsval = Undefined | Number rat | NaN | Infinity | NegInfinity | NegZero | BigInt int

definition ToIntN :: "nat \<Rightarrow> int \<Rightarrow> int" where
  "ToIntN n x = (let m = x mod 2 ^ n in if 2 ^ (n - 1) \<le> m then m - 2 ^ n else m)"

definition ToUintN :: "nat \<Rightarrow> int \<Rightarrow> int" where
  "ToUintN n x = x mod 2 ^ n"

definition ToUint8Clamp :: "rat \<Rightarrow> int" where
  "ToUint8Clamp x =
     (if x \<le> 0 then 0
      else if 255 \<le> x then 255
      else let f = \<lfloor>x\<rfloor>
           in if rat_of_int f + 1 / 2 < x then f + 1
              else if x < rat_of_int f + 1 / 2 then f
              else if even f then f else f + 1)"

text \<open>The \<open>n\<close>-byte little-endian encoding of an integer (two's complement when it
  is negative), and the unsigned number that bytes in that order stand for.\<close>

fun le_bytes :: "nat \<Rightarrow> int \<Rightarrow> byte list" where
  "le_bytes 0 x = []"
| "le_bytes (Suc n) x = word_of_int x # le_bytes n (x div 256)"

fun le_value :: "byte list \<Rightarrow> int" where
  "le_value [] = 0"
| "le_value (b # bs) = uint b + 256 * le_value bs"

text \<open>
  IEEE 754 binary formats, \<open>w\<close> exponent bits and \<open>t\<close> fraction bits wide (8 and 23
  for binary32, 11 and 52 for binary64). An encoding is the integer that its
  \<open>1 + w + t\<close> bits spell: the sign bit, then the exponent field, then the fraction
  field.
\<close>

definition bias :: "nat \<Rightarrow> int" where
  "bias w = 2 ^ (w - 1) - 1"

definition sign_field :: "nat \<Rightarrow> nat \<Rightarrow> int \<Rightarrow> bool" where
  "sign_field w t n = (n div 2 ^ (w + t) mod 2 = 1)"

definition exponent_field :: "nat \<Rightarrow> nat \<Rightarrow> int \<Rightarrow> int" where
  "exponent_field w t n = n div 2 ^ t mod 2 ^ w"

definition fraction_field :: "nat \<Rightarrow> int \<Rightarrow> int" where
  "fraction_field t n = n mod 2 ^ t"

definition float_bits :: "nat \<Rightarrow> nat \<Rightarrow> bool \<Rightarrow> int \<Rightarrow> int \<Rightarrow> int" where
  "float_bits w t s e f = (if s then 2 ^ (w + t) else 0) + e * 2 ^ t + f"

text \<open>What the fields stand for: with all exponent bits set, an infinity or NaN;
  with none set, a zero or a subnormal number; else a normal number.\<close>

definition float_value :: "nat \<Rightarrow> nat \<Rightarrow> bool \<Rightarrow> int \<Rightarrow> int \<Rightarrow> jsval" where
  "float_value w t s e f =
     (if e = 2 ^ w - 1 then (if f \<noteq> 0 then NaN else if s then NegInfinity else Infinity)
      else if e = 0 \<and> f = 0 then (if s then NegZero else Number 0)
      else Number ((if s then - 1 else 1) * rat_of_int (if e = 0 then f else 2 ^ t + f)
                   * 2 powi ((if e = 0 then 1 else e) - bias w - int t)))"

definition float_of_bits :: "nat \<Rightarrow> nat \<Rightarrow> int \<Rightarrow> jsval" where
  "float_of_bits w t n =
     float_value w t (sign_field w t n) (exponent_field w t n) (fraction_field t n)"

text \<open>For \<open>0 < x\<close>, the integer \<open>k\<close> with \<open>2 ^ k \<le> x < 2 ^ (k + 1)\<close>, from the bit lengths
  of numerator and denominator.\<close>

definition floor_log2 :: "rat \<Rightarrow> int" where
  "floor_log2 x =
     (case quotient_of x of (p, q) \<Rightarrow>
        let k = bitlen p - bitlen q in if 2 powi k \<le> x then k else k - 1)"

text \<open>Rounding to the nearest integer, a tie to the even one.\<close>

definition round_half_even :: "rat \<Rightarrow> int" where
  "round_half_even x =
     (let f = \<lfloor>x\<rfloor>
      in if x < rat_of_int f + 1 / 2 then f
         else if rat_of_int f + 1 / 2 < x then f + 1
         else if even f then f else f + 1)"

text \<open>
  The encoding of a positive number, rounded to nearest, ties to even: the
  exponent is that of the number but not below the least one; the significand is
  the number scaled to \<open>t\<close> fraction bits and rounded; a significand that rounds up
  to \<open>2 ^ (t + 1)\<close> moves to the next exponent; past the greatest exponent the
  result is infinity; below \<open>2 ^ t\<close> it is subnormal.
\<close>

definition round_magnitude :: "nat \<Rightarrow> nat \<Rightarrow> rat \<Rightarrow> int" where
  "round_magnitude w t a =
     (let ex = max (floor_log2 a) (1 - bias w);
          sig = round_half_even (a * 2 powi (int t - ex));
          ex' = (if sig = 2 ^ (t + 1) then ex + 1 else ex);
          sig' = (if sig = 2 ^ (t + 1) then 2 ^ t else sig)
      in if bias w < ex' then float_bits w t False (2 ^ w - 1) 0
         else if sig' < 2 ^ t then float_bits w t False 0 sig'
         else float_bits w t False (ex' + bias w) (sig' - 2 ^ t))"

text \<open>\<^verbatim>\<open>ToNumber\<close> of the value written, then its encoding. \<^verbatim>\<open>ToNumber(undefined)\<close> is
  NaN; of the NaN encodings, which ECMAScript leaves to the implementation, the
  model writes the quiet NaN with no other fraction bit set.\<close>

definition bits_of_float :: "nat \<Rightarrow> nat \<Rightarrow> jsval \<Rightarrow> error + int" where
  "bits_of_float w t v =
     (case v of
        BigInt n \<Rightarrow> Inl TypeError
      | Undefined \<Rightarrow> Inr (float_bits w t False (2 ^ w - 1) (2 ^ (t - 1)))
      | NaN \<Rightarrow> Inr (float_bits w t False (2 ^ w - 1) (2 ^ (t - 1)))
      | Infinity \<Rightarrow> Inr (float_bits w t False (2 ^ w - 1) 0)
      | NegInfinity \<Rightarrow> Inr (float_bits w t True (2 ^ w - 1) 0)
      | NegZero \<Rightarrow> Inr (float_bits w t True 0 0)
      | Number x \<Rightarrow>
          Inr (if x = 0 then 0
               else (if x < 0 then 2 ^ (w + t) else 0) + round_magnitude w t \<bar>x\<bar>))"

text \<open>\<^verbatim>\<open>ToNumber\<close> or \<^verbatim>\<open>ToBigInt\<close> of the value written, then the element type's
  conversion. Every integer conversion but \<^verbatim>\<open>ToUint8Clamp\<close> takes NaN, the
  infinities and \<^verbatim>\<open>-0\<close> to 0; \<^verbatim>\<open>ToUint8Clamp\<close> takes \<^verbatim>\<open>Infinity\<close> to 255. A BigInt
  where a Number is due, and anything but a BigInt where a BigInt is due, is a
  TypeError.\<close>

definition from_Number :: "(rat \<Rightarrow> int) \<Rightarrow> jsval \<Rightarrow> error + int" where
  "from_Number convOp v =
     (case v of Number x \<Rightarrow> Inr (convOp x) | BigInt n \<Rightarrow> Inl TypeError | _ \<Rightarrow> Inr 0)"

definition from_BigInt :: "(int \<Rightarrow> int) \<Rightarrow> jsval \<Rightarrow> error + int" where
  "from_BigInt convOp v =
     (case v of BigInt n \<Rightarrow> Inr (convOp n) | _ \<Rightarrow> Inl TypeError)"

text \<open>The integer whose little-endian bytes are stored for a value written: the
  converted integer, or the encoding of the Number.\<close>

fun convert :: "TypedArrayConstructor \<Rightarrow> jsval \<Rightarrow> error + int" where
  "convert Float64Array v = bits_of_float 11 52 v"
| "convert Float32Array v = bits_of_float 8 23 v"
| "convert BigInt64Array v = from_BigInt (ToIntN 64) v"
| "convert BigUint64Array v = from_BigInt (ToUintN 64) v"
| "convert Int32Array v = from_Number (\<lambda>x. ToIntN 32 (ToIntegerOrInfinity x)) v"
| "convert Uint32Array v = from_Number (\<lambda>x. ToUintN 32 (ToIntegerOrInfinity x)) v"
| "convert Uint16Array v = from_Number (\<lambda>x. ToUintN 16 (ToIntegerOrInfinity x)) v"
| "convert Int16Array v = from_Number (\<lambda>x. ToIntN 16 (ToIntegerOrInfinity x)) v"
| "convert Uint8ClampedArray v =
     (case v of Infinity \<Rightarrow> Inr 255 | _ \<Rightarrow> from_Number ToUint8Clamp v)"
| "convert Int8Array v = from_Number (\<lambda>x. ToIntN 8 (ToIntegerOrInfinity x)) v"
| "convert Uint8Array v = from_Number (\<lambda>x. ToUintN 8 (ToIntegerOrInfinity x)) v"

fun IsUnsignedElementType :: "TypedArrayConstructor \<Rightarrow> bool" where
  "IsUnsignedElementType BigUint64Array = True"
| "IsUnsignedElementType Uint32Array = True"
| "IsUnsignedElementType Uint16Array = True"
| "IsUnsignedElementType Uint8ClampedArray = True"
| "IsUnsignedElementType Uint8Array = True"
| "IsUnsignedElementType C = False"

fun IsBigIntElementType :: "TypedArrayConstructor \<Rightarrow> bool" where
  "IsBigIntElementType BigInt64Array = True"
| "IsBigIntElementType BigUint64Array = True"
| "IsBigIntElementType C = False"

fun IsFloatElementType :: "TypedArrayConstructor \<Rightarrow> bool" where
  "IsFloatElementType Float64Array = True"
| "IsFloatElementType Float32Array = True"
| "IsFloatElementType C = False"

definition NumericToRawBytes :: "TypedArrayConstructor \<Rightarrow> jsval \<Rightarrow> error + byte list" where
  "NumericToRawBytes C v =
     (case convert C v of
        Inl e \<Rightarrow> Inl e
      | Inr intValue \<Rightarrow> Inr (le_bytes (TypedArrayElementSize C) intValue))"

definition RawBytesToNumeric :: "TypedArrayConstructor \<Rightarrow> byte list \<Rightarrow> jsval" where
  "RawBytesToNumeric C rawBytes =
     (if IsFloatElementType C
      then (if C = Float32Array then float_of_bits 8 23 (le_value rawBytes)
            else float_of_bits 11 52 (le_value rawBytes))
      else let intValue = (if IsUnsignedElementType C then le_value rawBytes
                           else ToIntN (8 * TypedArrayElementSize C) (le_value rawBytes))
           in if IsBigIntElementType C then BigInt intValue
              else Number (rat_of_int intValue))"

definition TypedArraySetElement :: "heap \<Rightarrow> TypedArray \<Rightarrow> nat \<Rightarrow> jsval \<Rightarrow> error + heap" where
  "TypedArraySetElement h ta i v =
     (case NumericToRawBytes (TypedArrayName ta) v of
        Inl e \<Rightarrow> Inl e
      | Inr rawBytes \<Rightarrow> Inr (SetRawBytes h ta i rawBytes))"

definition TypedArrayGetElement :: "heap \<Rightarrow> TypedArray \<Rightarrow> nat \<Rightarrow> jsval" where
  "TypedArrayGetElement h ta i =
     (case GetRawBytes h ta i of
        None \<Rightarrow> Undefined
      | Some rawBytes \<Rightarrow> RawBytesToNumeric (TypedArrayName ta) rawBytes)"

text \<open>\<^verbatim>\<open>ta[i] = v\<close> followed by \<^verbatim>\<open>ta[i]\<close>.\<close>

definition write_then_read :: "heap \<Rightarrow> TypedArray \<Rightarrow> nat \<Rightarrow> jsval \<Rightarrow> error + jsval" where
  "write_then_read h ta i v =
     (case TypedArraySetElement h ta i v of
        Inl e \<Rightarrow> Inl e
      | Inr h' \<Rightarrow> Inr (TypedArrayGetElement h' ta i))"

text \<open>The values an integer element type holds exactly: the integers of its range,
  as Numbers or, for the two 64-bit types, as BigInts.\<close>

definition is_integer :: "rat \<Rightarrow> bool" where
  "is_integer x = (rat_of_int \<lfloor>x\<rfloor> = x)"

definition in_range :: "TypedArrayConstructor \<Rightarrow> int \<Rightarrow> bool" where
  "in_range C n =
     (let bits = 8 * TypedArrayElementSize C
      in if IsUnsignedElementType C then 0 \<le> n \<and> n < 2 ^ bits
         else - (2 ^ (bits - 1)) \<le> n \<and> n < 2 ^ (bits - 1))"

definition representable_integer :: "TypedArrayConstructor \<Rightarrow> jsval \<Rightarrow> bool" where
  "representable_integer C v =
     (\<not> IsFloatElementType C \<and>
      (case v of
         Number x \<Rightarrow> \<not> IsBigIntElementType C \<and> is_integer x \<and> in_range C \<lfloor>x\<rfloor>
       | BigInt n \<Rightarrow> IsBigIntElementType C \<and> in_range C n
       | _ \<Rightarrow> False))"

text \<open>Byte \<open>m\<close> of element \<open>i\<close> of a view lies at this index of the buffer.\<close>

definition byte_position :: "TypedArray \<Rightarrow> nat \<Rightarrow> nat \<Rightarrow> nat" where
  "byte_position ta i m = i * TypedArrayElementSize (TypedArrayName ta) + ByteOffset ta + m"

text \<open>The integer of the element type's range that is congruent to \<open>n\<close> modulo
  \<open>2 ^ bits\<close>: what the conversions \<^verbatim>\<open>ToInt8\<close> to \<^verbatim>\<open>ToBigUint64\<close> make of \<open>n\<close>.\<close>

definition wrap :: "TypedArrayConstructor \<Rightarrow> int \<Rightarrow> int" where
  "wrap C n =
     (if IsUnsignedElementType C then ToUintN (8 * TypedArrayElementSize C) n
      else ToIntN (8 * TypedArrayElementSize C) n)"

subsection \<open>Using a JavaScript array\<close>

text \<open>
  What a caller does with an array it holds: \<^verbatim>\<open>a.length\<close>, \<^verbatim>\<open>a[i]\<close>,
  \<^verbatim>\<open>a.indexOf(x)\<close> and \<^verbatim>\<open>a[i] = v\<close>. The checker admits the first three on both
  array types and the assignment on \<^verbatim>\<open>number[]\<close> only: on a
  \<^verbatim>\<open>readonly number[]\<close> it is a compile-time error. (The other members of
  \<^verbatim>\<open>ReadonlyArray\<close> allocate or take callbacks and are left out; none of them
  assigns to the array.)
\<close>

datatype array_op = Length | Index nat | IndexOf rat | Assign nat rat

fun admits :: "array_type \<Rightarrow> array_op \<Rightarrow> bool" where
  "admits readonly_number_array (Assign i v) = False"
| "admits T op = True"

text \<open>\<^verbatim>\<open>indexOf\<close>: the first index that holds the number, holes skipped, or -1.\<close>

fun first_index :: "rat \<Rightarrow> rat option list \<Rightarrow> nat \<Rightarrow> int" where
  "first_index x [] k = - 1"
| "first_index x (y # ys) k = (if y = Some x then int k else first_index x ys (Suc k))"

definition read_element :: "NumberArray \<Rightarrow> nat \<Rightarrow> jsval" where
  "read_element a i =
     (case (if i < 2 ^ 32 - 1 then (if i < length (items a) then items a ! i else None)
            else others a i) of
        None \<Rightarrow> Undefined
      | Some x \<Rightarrow> Number x)"

text \<open>
  \<^verbatim>\<open>a[i] = v\<close>: an array index (below \<open>2^32 - 1\<close>) past the end lengthens the array
  and leaves holes; any other key sets a plain property and leaves the length. On
  a frozen array nothing is written: strict-mode code gets a TypeError, other code
  no sign. The assignment, as an expression, has the value assigned.
\<close>

definition assign_element :: "NumberArray \<Rightarrow> nat \<Rightarrow> rat \<Rightarrow> NumberArray" where
  "assign_element a i v =
     (if i < 2 ^ 32 - 1
      then a\<lparr> items :=
             (if i < length (items a) then (items a)[i := Some v]
              else items a @ replicate (i - length (items a)) None @ [Some v]) \<rparr>
      else a\<lparr> others := (others a)(i \<mapsto> v) \<rparr>)"

fun run_op :: "bool \<Rightarrow> array_op \<Rightarrow> ref \<Rightarrow> world \<Rightarrow> (error + jsval) \<times> world" where
  "run_op strict Length r w = (Inr (Number (of_nat (length (items (arrays w r))))), w)"
| "run_op strict (Index i) r w = (Inr (read_element (arrays w r) i), w)"
| "run_op strict (IndexOf x) r w =
     (Inr (Number (rat_of_int (first_index x (items (arrays w r)) 0))), w)"
| "run_op strict (Assign i v) r w =
     (if frozen (arrays w r) then ((if strict then Inl TypeError else Inr (Number v)), w)
      else (Inr (Number v),
            w\<lparr> arrays := (arrays w)(r := assign_element (arrays w r) i v) \<rparr>))"


text \<open>The shape's own sequence of dimensions, as the store has it.\<close>

definition shape_dimensions :: "state \<Rightarrow> rat option list" where
  "shape_dimensions s = (case s of (this, w) \<Rightarrow> items (arrays w (dimensions (shape this))))"

text \<open>
  Modelled from the spec: \<^verbatim>\<open>Shape.toString\<close> is not among the sources. The spec
  says of the mismatch error that its description "names the shape's declared
  kind", and nothing else about the text. \<open>names_kind toString s\<close> says that much
  of a \<open>toString\<close> at the shape \<open>s\<close>.
\<close>

definition names_kind :: "(Shape \<Rightarrow> string) \<Rightarrow> Shape \<Rightarrow> bool" where
  "names_kind toString s = sublist (kind_name (type s)) (toString s)"

section \<open>Concrete values\<close>

text \<open>A store whose buffer 0 holds the bytes 1 to 16 and whose other buffers are
  detached; byte views into it; tensors over them; a \<open>toString\<close>; and a store of
  arrays in which every array is \<^verbatim>\<open>[2, 3]\<close> and none is frozen.\<close>

definition example_heap :: heap where
  "example_heap =
     (\<lambda>b. Detached)(0 := Data [1, 2, 3, 4, 5, 6, 7, 8, 9, 10, 11, 12, 13, 14, 15, 16])"

definition bytes_at :: "ref \<Rightarrow> nat \<Rightarrow> nat \<Rightarrow> TypedArray" where
  "bytes_at b off n = \<lparr> TypedArrayName = Uint8Array, ViewedArrayBuffer = b,
                         ByteOffset = off, ArrayLength = n \<rparr>"

definition tensor_of :: "ElementKind \<Rightarrow> TypedArray \<Rightarrow> Tensor" where
  "tensor_of k e = Tensor_new \<lparr> type = k, dimensions = 0 \<rparr> e"

definition example_toString :: "Shape \<Rightarrow> string" where
  "example_toString s = kind_name (type s) @ ''[..]''"


text \<open>A second store: buffer 0 as before, and buffer 3 with other bytes, among them
  the binary32 encodings of \<open>3/2\<close> at byte 4 and of \<open>-1\<close> at byte 8. Two views of
  buffer 3.\<close>

definition two_buffers :: heap where
  "two_buffers =
     example_heap(3 := Data [7, 7, 254, 255, 0, 0, 192, 63, 0, 0, 128, 191, 9, 9, 9, 9])"

definition example_floats :: TypedArray where
  "example_floats = \<lparr> TypedArrayName = Float32Array, ViewedArrayBuffer = 3,
                       ByteOffset = 4, ArrayLength = 2 \<rparr>"

definition example_shorts :: TypedArray where
  "example_shorts = \<lparr> TypedArrayName = Int16Array, ViewedArrayBuffer = 3,
                       ByteOffset = 2, ArrayLength = 3 \<rparr>"

definition example_clamped :: TypedArray where
  "example_clamped = \<lparr> TypedArrayName = Uint8ClampedArray, ViewedArrayBuffer = 0,
                        ByteOffset = 2, ArrayLength = 6 \<rparr>"

definition example_int8 :: TypedArray where
  "example_int8 = \<lparr> TypedArrayName = Int8Array, ViewedArrayBuffer = 0,
                     ByteOffset = 2, ArrayLength = 6 \<rparr>"

lemmas ex_defs = example_heap_def bytes_at_def tensor_of_def Tensor_new_def

lemmas run_defs = asTypedArray_def Let_def get_buffer_def get_byteOffset_def get_byteLength_def
  InitializeTypedArrayFromArrayBuffer_def ArrayBufferByteLength_def IsDetachedBuffer_def
  ToIndex_def ToIntegerOrInfinity_def

section \<open>Kind mismatch\<close>

text \<open>
  Claim C1. A view whose shape declares one kind, asked for any other kind, fails
  with the mismatch error of line 38, whatever the store, the buffer, its offset
  and its length are, also when both kinds have the same byte width.
\<close>

theorem asTypedArray_mismatch:
  assumes "type (shape this) = k1" and "k2 \<noteq> k1"
  shows "asTypedArray toString h this k2 =
           Inl (Error (''Attempting to interpret a '' @ toString (shape this)
                        @ '' as a '' @ kind_name k2 @ '' tensor''))"
  using assms by (simp add: asTypedArray_def)

text \<open>At i32 and u32, both four bytes wide.\<close>

theorem asTypedArray_mismatch_witness:
  "ByteSize i32 = ByteSize u32
   \<and> type (shape (tensor_of i32 (bytes_at 0 0 4))) = i32 \<and> u32 \<noteq> i32
   \<and> asTypedArray example_toString example_heap (tensor_of i32 (bytes_at 0 0 4)) u32
       = Inl (Error ''Attempting to interpret a i32[..] as a u32 tensor'')"
  using asTypedArray_mismatch [of "tensor_of i32 (bytes_at 0 0 4)" i32 u32
      example_toString example_heap]
  by (simp add: ex_defs example_toString_def)

text \<open>
  Claim C6. The error of a mismatch is an \<^verbatim>\<open>Error\<close> whose message is
  "Attempting to interpret a", the shape's description, "as a", the requested kind,
  "tensor". The requested kind is in the message as its string; the declared kind
  is in it wherever the shape's description names it, as the spec says
  \<^verbatim>\<open>Shape.toString\<close> does. The \<^verbatim>\<open>Error\<close> object has the message and no other
  field: the two kinds travel inside the message.
\<close>

lemma sublist_in_message: "sublist x m \<Longrightarrow> sublist x (p @ m @ q)"
  by (metis sublist_appendI sublist_order.order_trans)

theorem mismatch_message:
  assumes "type (shape this) = k1" and "k2 \<noteq> k1" and "names_kind toString (shape this)"
  shows "\<exists>msg. asTypedArray toString h this k2 = Inl (Error msg)
           \<and> msg = ''Attempting to interpret a '' @ toString (shape this)
                     @ '' as a '' @ kind_name k2 @ '' tensor''
           \<and> sublist (kind_name k1) msg \<and> sublist (kind_name k2) msg"
proof -
  let ?msg = "''Attempting to interpret a '' @ toString (shape this)
                @ '' as a '' @ kind_name k2 @ '' tensor''"
  have run: "asTypedArray toString h this k2 = Inl (Error ?msg)"
    using assms(1,2) by (simp add: asTypedArray_def)
  have "sublist (kind_name k1) (toString (shape this))"
    using assms(1,3) by (simp add: names_kind_def)
  then have d: "sublist (kind_name k1) ?msg"
    by (rule sublist_in_message)
  have "sublist (kind_name k2) (kind_name k2)" by simp
  then have "sublist (kind_name k2)
      ((''Attempting to interpret a '' @ toString (shape this) @ '' as a '')
        @ kind_name k2 @ '' tensor'')"
    by (rule sublist_in_message)
  then have r: "sublist (kind_name k2) ?msg" by simp
  from run d r show ?thesis by blast
qed

text \<open>The spec's scenario: a shape declared f32, asked for i32.\<close>

theorem mismatch_message_witness:
  "names_kind example_toString (shape (tensor_of f32 (bytes_at 0 0 16)))
   \<and> asTypedArray example_toString example_heap (tensor_of f32 (bytes_at 0 0 16)) i32
       = Inl (Error ''Attempting to interpret a f32[..] as a i32 tensor'')
   \<and> sublist ''f32'' ''Attempting to interpret a f32[..] as a i32 tensor''
   \<and> sublist ''i32'' ''Attempting to interpret a f32[..] as a i32 tensor''"
proof -
  have n: "names_kind example_toString (shape (tensor_of f32 (bytes_at 0 0 16)))"
    by (simp add: names_kind_def example_toString_def)
  have t: "type (shape (tensor_of f32 (bytes_at 0 0 16))) = f32"
    by (simp add: ex_defs)
  have "i32 \<noteq> f32" by simp
  from mismatch_message [OF t this n, of example_heap] n show ?thesis
    by (simp add: ex_defs example_toString_def)
qed

section \<open>Matching kinds\<close>

lemma ByteSize_pos: "0 < ByteSize k"
  by (cases k) simp_all

lemma ByteSize_typedArrays: "TypedArrayElementSize (typedArrays k) = ByteSize k"
  by (cases k) simp_all

lemma ToIndex_of_nat: "n \<le> 2 ^ 53 - 1 \<Longrightarrow> ToIndex (rat_of_nat n) = Inr n"
  by (simp add: ToIndex_def ToIntegerOrInfinity_def Let_def)

text \<open>The quotient of line 42, truncated by the constructor: the integer quotient.\<close>

lemma ToIndex_quotient:
  assumes "a \<le> 2 ^ 53 - 1"
  shows "ToIndex (rat_of_nat a / rat_of_nat w) = Inr (a div w)"
proof -
  have q: "\<lfloor>rat_of_nat a / rat_of_nat w\<rfloor> = int (a div w)"
    by (simp add: floor_divide_of_nat_eq)
  have nn: "\<not> rat_of_nat a / rat_of_nat w < 0"
    by (simp add: not_less)
  have "a div w \<le> a" by simp
  with assms have "a div w \<le> 2 ^ 53 - 1" by linarith
  hence "int (a div w) \<le> 2 ^ 53 - 1" by (simp add: le_diff_conv2)
  thus ?thesis using q nn
    by (simp add: ToIndex_def ToIntegerOrInfinity_def Let_def)
qed

text \<open>What \<^verbatim>\<open>asTypedArray\<close> answers when the kinds agree, case by case.\<close>

lemma asTypedArray_matching:
  assumes wf: "wf_view h (elements this)" and k: "type (shape this) = k"
  shows "asTypedArray toString h this k =
     (if IsDetachedBuffer h (ViewedArrayBuffer (elements this)) then Inl TypeError
      else if ByteOffset (elements this) mod ByteSize k \<noteq> 0 then Inl RangeError
      else Inr \<lparr> TypedArrayName = typedArrays k,
                 ViewedArrayBuffer = ViewedArrayBuffer (elements this),
                 ByteOffset = ByteOffset (elements this),
                 ArrayLength = get_byteLength h (elements this) div ByteSize k \<rparr>)"
proof (cases "h (ViewedArrayBuffer (elements this))")
  case Detached
  then show ?thesis using k
    by (simp add: asTypedArray_def Let_def get_buffer_def get_byteOffset_def get_byteLength_def
        IsDetachedBuffer_def InitializeTypedArrayFromArrayBuffer_def ToIndex_def
        ToIntegerOrInfinity_def)
next
  case (Data bs)
  let ?e = "elements this"
  let ?L = "ArrayLength ?e * TypedArrayElementSize (TypedArrayName ?e)"
  from wf Data have inb: "ByteOffset ?e + ?L \<le> length bs" and big: "length bs \<le> 2 ^ 53 - 1"
    by (simp_all add: wf_view_def)
  have nd: "\<not> IsDetachedBuffer h (ViewedArrayBuffer ?e)"
    using Data by (simp add: IsDetachedBuffer_def)
  have off: "ToIndex (rat_of_nat (ByteOffset ?e)) = Inr (ByteOffset ?e)"
    using inb big by (intro ToIndex_of_nat) linarith
  have len: "ToIndex (rat_of_nat ?L / rat_of_nat (ByteSize k)) = Inr (?L div ByteSize k)"
    using inb big by (intro ToIndex_quotient) linarith
  have "?L div ByteSize k * ByteSize k \<le> ?L" by simp
  with inb have fits: "\<not> length bs < ByteOffset ?e + ?L div ByteSize k * ByteSize k"
    by linarith
  show ?thesis using k nd off len fits Data
    by (simp add: asTypedArray_def Let_def get_buffer_def get_byteOffset_def get_byteLength_def
        InitializeTypedArrayFromArrayBuffer_def ByteSize_typedArrays ArrayBufferByteLength_def)
qed

text \<open>
  Claim C3, amended. The mismatch is not the only error. With the requested kind
  equal to the declared kind, \<^verbatim>\<open>asTypedArray\<close> of a well-formed view throws
  \<^verbatim>\<open>TypeError\<close> when the buffer is detached, throws \<^verbatim>\<open>RangeError\<close> when the
  view's byte offset is not a multiple of the kind's byte width, and in every other
  case succeeds, with a typed array over the same buffer at the same offset.
\<close>

theorem asTypedArray_error_conditions:
  assumes "wf_view h (elements this)" and "type (shape this) = k"
  shows "asTypedArray toString h this k =
     (if IsDetachedBuffer h (get_buffer (elements this)) then Inl TypeError
      else if get_byteOffset h (elements this) mod ByteSize k \<noteq> 0 then Inl RangeError
      else Inr \<lparr> TypedArrayName = typedArrays k,
                 ViewedArrayBuffer = get_buffer (elements this),
                 ByteOffset = get_byteOffset h (elements this),
                 ArrayLength = get_byteLength h (elements this) div ByteSize k \<rparr>)"
  using asTypedArray_matching [OF assms, of toString]
  by (simp add: get_buffer_def get_byteOffset_def)

theorem asTypedArray_error_conditions_witness:
  "wf_view example_heap (elements (tensor_of u16 (bytes_at 0 2 6)))
   \<and> type (shape (tensor_of u16 (bytes_at 0 2 6))) = u16
   \<and> asTypedArray example_toString example_heap (tensor_of u16 (bytes_at 0 2 6)) u16
       = Inr \<lparr> TypedArrayName = Uint16Array, ViewedArrayBuffer = 0,
               ByteOffset = 2, ArrayLength = 3 \<rparr>"
  using asTypedArray_error_conditions [of example_heap "tensor_of u16 (bytes_at 0 2 6)" u16
      example_toString]
  by (simp add: ex_defs wf_view_def IsDetachedBuffer_def get_buffer_def get_byteOffset_def
      get_byteLength_def)

text \<open>The claim as written fails: the view of bytes 3 to 6 of buffer 0, declared
  and requested as i16, is refused with \<^verbatim>\<open>RangeError\<close>, and a view of the detached
  buffer 1 with \<^verbatim>\<open>TypeError\<close>.\<close>

theorem only_error_counterexample:
  "type (shape (tensor_of i16 (bytes_at 0 3 4))) = i16
   \<and> asTypedArray example_toString example_heap (tensor_of i16 (bytes_at 0 3 4)) i16
       = Inl RangeError
   \<and> asTypedArray example_toString example_heap (tensor_of i16 (bytes_at 1 0 0)) i16
       = Inl TypeError"
  by (simp add: ex_defs run_defs)

text \<open>
  Claim C2, amended. For every kind \<open>k\<close> and every well-formed byte view whose
  buffer is not detached, whose byte offset is a multiple of the byte width of \<open>k\<close>
  and whose byte length is an exact multiple of it, a tensor declared \<open>k\<close> over the
  view answers \<^verbatim>\<open>asTypedArray(k)\<close> with a typed array of byte length divided by
  byte width elements, which cover all the bytes of the view.
\<close>

theorem asTypedArray_exact_multiple:
  assumes "wf_view h (elements this)"
    and "\<not> IsDetachedBuffer h (get_buffer (elements this))"
    and "get_byteOffset h (elements this) mod ByteSize k = 0"
    and "type (shape this) = k"
    and "get_byteLength h (elements this) mod ByteSize k = 0"
  shows "asTypedArray toString h this k =
           Inr \<lparr> TypedArrayName = typedArrays k,
                 ViewedArrayBuffer = get_buffer (elements this),
                 ByteOffset = get_byteOffset h (elements this),
                 ArrayLength = get_byteLength h (elements this) div ByteSize k \<rparr>
         \<and> get_byteLength h (elements this) div ByteSize k * ByteSize k
             = get_byteLength h (elements this)"
proof -
  have "get_byteLength h (elements this) div ByteSize k * ByteSize k
          = get_byteLength h (elements this)"
    using assms(5) by (simp add: mod_eq_0_iff_dvd)
  then show ?thesis
    using assms asTypedArray_matching [OF assms(1) assms(4), of toString]
    by (simp add: get_buffer_def get_byteOffset_def)
qed

theorem asTypedArray_exact_multiple_witness:
  "wf_view example_heap (elements (tensor_of f32 (bytes_at 0 4 8)))
   \<and> get_byteOffset example_heap (elements (tensor_of f32 (bytes_at 0 4 8))) mod ByteSize f32 = 0
   \<and> get_byteLength example_heap (elements (tensor_of f32 (bytes_at 0 4 8))) mod ByteSize f32 = 0
   \<and> asTypedArray example_toString example_heap (tensor_of f32 (bytes_at 0 4 8)) f32
       = Inr \<lparr> TypedArrayName = Float32Array, ViewedArrayBuffer = 0,
               ByteOffset = 4, ArrayLength = 2 \<rparr>"
  using asTypedArray_exact_multiple [of example_heap "tensor_of f32 (bytes_at 0 4 8)" f32
      example_toString]
  by (simp add: ex_defs wf_view_def IsDetachedBuffer_def get_buffer_def get_byteOffset_def
      get_byteLength_def)

text \<open>The claim as written fails: eight bytes are two f32 values, but at byte
  offset 1 the constructor refuses them.\<close>

theorem exact_multiple_counterexample:
  "get_byteLength example_heap (elements (tensor_of f32 (bytes_at 0 1 8))) mod ByteSize f32 = 0
   \<and> asTypedArray example_toString example_heap (tensor_of f32 (bytes_at 0 1 8)) f32
       = Inl RangeError"
  by (simp add: ex_defs run_defs)

text \<open>
  Claim C4, amended. For every well-formed byte view whose buffer is not detached
  and whose byte offset is a multiple of the kind's byte width, with the declared
  kind equal to the requested kind and a byte length that is not a multiple of the
  byte width, \<^verbatim>\<open>asTypedArray\<close> does not fail: the element count is the integer
  quotient of byte length by byte width, and the bytes of the remainder are left out.
\<close>

theorem asTypedArray_truncates:
  assumes "wf_view h (elements this)"
    and "\<not> IsDetachedBuffer h (get_buffer (elements this))"
    and "get_byteOffset h (elements this) mod ByteSize k = 0"
    and "type (shape this) = k"
    and "get_byteLength h (elements this) mod ByteSize k \<noteq> 0"
  shows "asTypedArray toString h this k =
           Inr \<lparr> TypedArrayName = typedArrays k,
                 ViewedArrayBuffer = get_buffer (elements this),
                 ByteOffset = get_byteOffset h (elements this),
                 ArrayLength = get_byteLength h (elements this) div ByteSize k \<rparr>
         \<and> get_byteLength h (elements this) div ByteSize k * ByteSize k
             < get_byteLength h (elements this)
         \<and> get_byteLength h (elements this)
             < (get_byteLength h (elements this) div ByteSize k + 1) * ByteSize k"
proof -
  let ?n = "get_byteLength h (elements this)"
  have pos: "0 < ByteSize k" by (rule ByteSize_pos)
  have "?n = ?n div ByteSize k * ByteSize k + ?n mod ByteSize k" by simp
  moreover have "0 < ?n mod ByteSize k" using assms(5) by simp
  moreover have "?n mod ByteSize k < ByteSize k" using pos by simp
  moreover have "(?n div ByteSize k + 1) * ByteSize k = ?n div ByteSize k * ByteSize k + ByteSize k"
    by (simp add: algebra_simps)
  ultimately have "?n div ByteSize k * ByteSize k < ?n"
    and "?n < (?n div ByteSize k + 1) * ByteSize k"
    by linarith+
  then show ?thesis
    using assms asTypedArray_matching [OF assms(1) assms(4), of toString]
    by (simp add: get_buffer_def get_byteOffset_def)
qed

theorem asTypedArray_truncates_witness:
  "wf_view example_heap (elements (tensor_of i32 (bytes_at 0 4 7)))
   \<and> get_byteOffset example_heap (elements (tensor_of i32 (bytes_at 0 4 7))) mod ByteSize i32 = 0
   \<and> get_byteLength example_heap (elements (tensor_of i32 (bytes_at 0 4 7))) mod ByteSize i32 = 3
   \<and> asTypedArray example_toString example_heap (tensor_of i32 (bytes_at 0 4 7)) i32
       = Inr \<lparr> TypedArrayName = Int32Array, ViewedArrayBuffer = 0,
               ByteOffset = 4, ArrayLength = 1 \<rparr>"
  using asTypedArray_truncates [of example_heap "tensor_of i32 (bytes_at 0 4 7)" i32
      example_toString]
  by (simp add: ex_defs wf_view_def IsDetachedBuffer_def get_buffer_def get_byteOffset_def
      get_byteLength_def)

text \<open>The claim as written fails: five bytes at byte offset 2, declared and
  requested as i32, are not truncated to one element but refused.\<close>

theorem truncation_counterexample:
  "type (shape (tensor_of i32 (bytes_at 0 2 5))) = i32
   \<and> get_byteLength example_heap (elements (tensor_of i32 (bytes_at 0 2 5))) mod ByteSize i32 \<noteq> 0
   \<and> asTypedArray example_toString example_heap (tensor_of i32 (bytes_at 0 2 5)) i32
       = Inl RangeError"
  by (simp add: ex_defs run_defs)

text \<open>
  Claim C7, amended. For every kind \<open>k\<close>, a zero-length well-formed byte view
  whose buffer is not detached and whose byte offset is a multiple of the byte
  width of \<open>k\<close>, declared and requested as \<open>k\<close>, gives a typed array of length 0 and
  no error.
\<close>

theorem asTypedArray_zero_length:
  assumes "wf_view h (elements this)"
    and "\<not> IsDetachedBuffer h (get_buffer (elements this))"
    and "get_byteOffset h (elements this) mod ByteSize k = 0"
    and "type (shape this) = k"
    and "get_byteLength h (elements this) = 0"
  shows "asTypedArray toString h this k =
           Inr \<lparr> TypedArrayName = typedArrays k,
                 ViewedArrayBuffer = get_buffer (elements this),
                 ByteOffset = get_byteOffset h (elements this),
                 ArrayLength = 0 \<rparr>"
  using assms asTypedArray_matching [OF assms(1) assms(4), of toString]
  by (simp add: get_buffer_def get_byteOffset_def)

theorem asTypedArray_zero_length_witness:
  "wf_view example_heap (elements (tensor_of f64 (bytes_at 0 8 0)))
   \<and> get_byteOffset example_heap (elements (tensor_of f64 (bytes_at 0 8 0))) mod ByteSize f64 = 0
   \<and> get_byteLength example_heap (elements (tensor_of f64 (bytes_at 0 8 0))) = 0
   \<and> asTypedArray example_toString example_heap (tensor_of f64 (bytes_at 0 8 0)) f64
       = Inr \<lparr> TypedArrayName = Float64Array, ViewedArrayBuffer = 0,
               ByteOffset = 8, ArrayLength = 0 \<rparr>"
  using asTypedArray_zero_length [of example_heap "tensor_of f64 (bytes_at 0 8 0)" f64
      example_toString]
  by (simp add: ex_defs wf_view_def IsDetachedBuffer_def get_buffer_def get_byteOffset_def
      get_byteLength_def)

text \<open>The claim as written fails twice: an empty view at byte offset 4, declared
  and requested as f64, is refused with \<^verbatim>\<open>RangeError\<close>; and a view of a detached
  buffer, whose byte length reads 0, with \<^verbatim>\<open>TypeError\<close>.\<close>

theorem zero_length_counterexample:
  "get_byteLength example_heap (elements (tensor_of f64 (bytes_at 0 4 0))) = 0
   \<and> asTypedArray example_toString example_heap (tensor_of f64 (bytes_at 0 4 0)) f64
       = Inl RangeError
   \<and> get_byteLength example_heap (elements (tensor_of f64 (bytes_at 1 0 0))) = 0
   \<and> asTypedArray example_toString example_heap (tensor_of f64 (bytes_at 1 0 0)) f64
       = Inl TypeError"
  by (simp add: ex_defs run_defs)

section \<open>Accessors\<close>

lemma get_elementType_once: "get_elementType s = (Inr (type (shape (fst s))), s)"
  by (cases s) (simp add: get_elementType_def)

lemma get_dimensions_once:
  "get_dimensions s =
     (Inr \<lparr> static_type = readonly_number_array, target = dimensions (shape (fst s)) \<rparr>, s)"
  by (cases s) (simp add: get_dimensions_def)

lemma repeat_call_elementType:
  "repeat_call n get_elementType s = (replicate n (Inr (type (shape (fst s)))), s)"
  by (induction n) (simp_all add: get_elementType_once)

lemma repeat_call_dimensions:
  "repeat_call n get_dimensions s =
     (replicate n (Inr \<lparr> static_type = readonly_number_array,
                          target = dimensions (shape (fst s)) \<rparr>), s)"
  by (induction n) (simp_all add: get_dimensions_once)

text \<open>
  Claim C8. Called any number of times in a row, \<^verbatim>\<open>elementType\<close> answers the
  shape's kind every time and \<^verbatim>\<open>dimensions\<close> the shape's array, under its
  declared type, every time; no
  call fails; and the view, its shape and the store are afterwards what they were
  before.
\<close>

theorem accessors_pure:
  "repeat_call n get_elementType s = (replicate n (Inr (type (shape (fst s)))), s)
   \<and> repeat_call n get_dimensions s =
       (replicate n (Inr \<lparr> static_type = readonly_number_array,
                            target = dimensions (shape (fst s)) \<rparr>), s)"
  by (simp add: repeat_call_elementType repeat_call_dimensions)




text \<open>
  The accessor makes no copy and freezes nothing. The assignment that the type
  keeps out, run all the same on the object handed out (by JavaScript code, or
  after a cast to \<^verbatim>\<open>number[]\<close>), lands in the shape's own sequence unless the
  array is frozen. Such a caller is outside the claim, as a kind outside the ten
  keys is outside the claims on \<^verbatim>\<open>asTypedArray\<close>: callers are held to the declared
  types.
\<close>

lemma assignment_outside_the_type:
  assumes "get_dimensions (this, w) = (Inr d, s)" and "i < 2 ^ 32 - 1"
  shows "\<not> admits (static_type d) (Assign i v)
       \<and> admits number_array (Assign i v)
       \<and> (frozen (arrays w (dimensions (shape this))) \<longrightarrow>
            snd (run_op strict (Assign i v) (target d) w) = w)
       \<and> (\<not> frozen (arrays w (dimensions (shape this))) \<longrightarrow>
            shape_dimensions (this, snd (run_op strict (Assign i v) (target d) w)) ! i
              = Some v)"
proof -
  from assms(1) have d: "d = \<lparr> static_type = readonly_number_array,
      target = dimensions (shape this) \<rparr>"
    by (simp add: get_dimensions_def)
  show ?thesis
    using assms(2) by (simp add: d shape_dimensions_def assign_element_def nth_append)
qed

section \<open>The typed array and the bytes it shares\<close>

subsection \<open>Bytes in a block\<close>

lemma length_store_bytes: "length (store_bytes block k raw) = length block"
  by (induction raw arbitrary: block k) simp_all

lemma nth_store_bytes:
  "p < length block \<Longrightarrow>
   store_bytes block k raw ! p =
     (if k \<le> p \<and> p < k + length raw then raw ! (p - k) else block ! p)"
proof (induction raw arbitrary: block k)
  case Nil
  then show ?case by auto
next
  case (Cons b raw)
  have len: "p < length (block[k := b])" using Cons.prems by simp
  show ?case
  proof (cases "p = k")
    case True
    then show ?thesis using Cons.IH [OF len, of "Suc k"] Cons.prems by simp
  next
    case False
    then show ?thesis using Cons.IH [OF len, of "Suc k"] Cons.prems
      by (auto simp: nth_Cons' Suc_diff_le)
  qed
qed

lemma length_load_bytes:
  "k + n \<le> length block \<Longrightarrow> length (load_bytes block k n) = n"
  by (simp add: load_bytes_def)

lemma nth_load_bytes:
  "m < n \<Longrightarrow> k + n \<le> length block \<Longrightarrow> load_bytes block k n ! m = block ! (k + m)"
  by (simp add: load_bytes_def)

lemma load_store_bytes:
  assumes "k + length raw \<le> length block"
  shows "load_bytes (store_bytes block k raw) k (length raw) = raw"
proof (rule nth_equalityI)
  show "length (load_bytes (store_bytes block k raw) k (length raw)) = length raw"
    using assms by (simp add: length_load_bytes length_store_bytes)
next
  fix m assume "m < length (load_bytes (store_bytes block k raw) k (length raw))"
  then have m: "m < length raw" using assms by (simp add: length_load_bytes length_store_bytes)
  then show "load_bytes (store_bytes block k raw) k (length raw) ! m = raw ! m"
    using assms by (simp add: nth_load_bytes length_store_bytes nth_store_bytes)
qed

lemma view_in_buffer_Data:
  "view_in_buffer h ta \<Longrightarrow>
   \<exists>block. h (ViewedArrayBuffer ta) = Data block
     \<and> ByteOffset ta + ArrayLength ta * TypedArrayElementSize (TypedArrayName ta) \<le> length block"
  by (cases "h (ViewedArrayBuffer ta)") (simp_all add: view_in_buffer_def)

lemma element_in_block:
  assumes "off + len * sz \<le> (n::nat)" and "i < len"
  shows "i * sz + off + sz \<le> n"
proof -
  have "Suc i \<le> len" using assms(2) by simp
  then have "Suc i * sz \<le> len * sz" by (rule mult_le_mono1)
  then show ?thesis using assms(1) by simp
qed

lemma GetRawBytes_SetRawBytes_same:
  assumes "view_in_buffer h ta" and "i < ArrayLength ta"
    and "length raw = TypedArrayElementSize (TypedArrayName ta)"
  shows "GetRawBytes (SetRawBytes h ta i raw) ta i = Some raw"
proof -
  from view_in_buffer_Data [OF assms(1)] obtain block where
    b: "h (ViewedArrayBuffer ta) = Data block" and
    inb: "ByteOffset ta + ArrayLength ta * TypedArrayElementSize (TypedArrayName ta) \<le> length block"
    by blast
  have fit: "i * length raw + ByteOffset ta + length raw \<le> length block"
    using element_in_block [OF inb assms(2)] assms(3) by simp
  have "load_bytes (store_bytes block (i * length raw + ByteOffset ta) raw)
          (i * length raw + ByteOffset ta) (length raw) = raw"
    using fit by (intro load_store_bytes) simp
  then show ?thesis using b assms(2,3)
    by (simp add: GetRawBytes_def SetRawBytes_def IsValidIntegerIndex_def IsDetachedBuffer_def
        Let_def)
qed

lemma alias_visibility:
  assumes same: "ViewedArrayBuffer v2 = ViewedArrayBuffer v1"
    and in1: "view_in_buffer h v1" and in2: "view_in_buffer h v2"
    and i1: "i1 < ArrayLength v1" and i2: "i2 < ArrayLength v2"
    and raw: "length raw = TypedArrayElementSize (TypedArrayName v1)"
    and m: "m < TypedArrayElementSize (TypedArrayName v2)"
  shows "\<exists>old new. GetRawBytes h v2 i2 = Some old
           \<and> GetRawBytes (SetRawBytes h v1 i1 raw) v2 i2 = Some new
           \<and> length old = TypedArrayElementSize (TypedArrayName v2)
           \<and> length new = TypedArrayElementSize (TypedArrayName v2)
           \<and> new ! m =
               (let p = i2 * TypedArrayElementSize (TypedArrayName v2) + ByteOffset v2 + m;
                    s = i1 * TypedArrayElementSize (TypedArrayName v1) + ByteOffset v1
                in if s \<le> p \<and> p < s + TypedArrayElementSize (TypedArrayName v1)
                   then raw ! (p - s) else old ! m)"
proof -
  let ?w1 = "TypedArrayElementSize (TypedArrayName v1)"
  let ?w2 = "TypedArrayElementSize (TypedArrayName v2)"
  let ?s = "i1 * ?w1 + ByteOffset v1"
  let ?q = "i2 * ?w2 + ByteOffset v2"
  from view_in_buffer_Data [OF in1] obtain block where
    b1: "h (ViewedArrayBuffer v1) = Data block" by blast
  from view_in_buffer_Data [OF in2] same b1 have
    inb2: "ByteOffset v2 + ArrayLength v2 * ?w2 \<le> length block" by auto
  have fit2: "?q + ?w2 \<le> length block"
    by (rule element_in_block [OF inb2 i2])
  let ?block' = "store_bytes block ?s raw"
  have old: "GetRawBytes h v2 i2 = Some (load_bytes block ?q ?w2)"
    using b1 same i2
    by (simp add: GetRawBytes_def IsValidIntegerIndex_def IsDetachedBuffer_def Let_def)
  have new: "GetRawBytes (SetRawBytes h v1 i1 raw) v2 i2 = Some (load_bytes ?block' ?q ?w2)"
    using b1 same i1 i2
    by (simp add: GetRawBytes_def SetRawBytes_def IsValidIntegerIndex_def IsDetachedBuffer_def
        Let_def)
  have lo: "length (load_bytes block ?q ?w2) = ?w2"
    using fit2 by (rule length_load_bytes)
  have ln: "length (load_bytes ?block' ?q ?w2) = ?w2"
    using fit2 by (intro length_load_bytes) (simp add: length_store_bytes)
  have p: "?q + m < length block" using fit2 m by linarith
  have "load_bytes ?block' ?q ?w2 ! m = ?block' ! (?q + m)"
    using m fit2 by (intro nth_load_bytes) (simp_all add: length_store_bytes)
  also have "\<dots> = (if ?s \<le> ?q + m \<and> ?q + m < ?s + length raw
                    then raw ! (?q + m - ?s) else block ! (?q + m))"
    using p by (rule nth_store_bytes)
  also have "block ! (?q + m) = load_bytes block ?q ?w2 ! m"
    using m fit2 by (simp add: nth_load_bytes)
  finally have "load_bytes ?block' ?q ?w2 ! m =
      (if ?s \<le> ?q + m \<and> ?q + m < ?s + ?w1
       then raw ! (?q + m - ?s) else load_bytes block ?q ?w2 ! m)"
    using raw by simp
  with old new lo ln show ?thesis by (simp add: Let_def)
qed

subsection \<open>What a successful call returns\<close>

lemma ToIndex_InrD: "ToIndex x = Inr m \<Longrightarrow> 0 \<le> x \<Longrightarrow> m = nat \<lfloor>x\<rfloor>"
  by (auto simp: ToIndex_def ToIntegerOrInfinity_def Let_def split: if_splits)

lemma Initialize_InrD:
  assumes "InitializeTypedArrayFromArrayBuffer h C b (rat_of_nat off) len = Inr ta"
    and "0 \<le> len"
  shows "TypedArrayName ta = C \<and> ViewedArrayBuffer ta = b \<and> ByteOffset ta = off
         \<and> ArrayLength ta = nat \<lfloor>len\<rfloor> \<and> view_in_buffer h ta"
proof -
  from assms(1) obtain offset newLength where
    o: "ToIndex (rat_of_nat off) = Inr offset" and n: "ToIndex len = Inr newLength"
    and nd: "\<not> IsDetachedBuffer h b"
    and fits: "\<not> ArrayBufferByteLength h b < offset + newLength * TypedArrayElementSize C"
    and ta: "ta = \<lparr> TypedArrayName = C, ViewedArrayBuffer = b,
                    ByteOffset = offset, ArrayLength = newLength \<rparr>"
    by (auto simp: InitializeTypedArrayFromArrayBuffer_def Let_def split: sum.splits if_splits)
  have "offset = off" using ToIndex_InrD [OF o] by simp
  moreover have "newLength = nat \<lfloor>len\<rfloor>" using ToIndex_InrD [OF n assms(2)] .
  moreover have "view_in_buffer h ta"
    using nd fits ta
    by (cases "h b") (simp_all add: view_in_buffer_def IsDetachedBuffer_def
        ArrayBufferByteLength_def)
  ultimately show ?thesis using ta by simp
qed

lemma asTypedArray_InrD:
  assumes "asTypedArray toString h this k = Inr ta"
  shows "type (shape this) = k \<and> TypedArrayName ta = typedArrays k
         \<and> ViewedArrayBuffer ta = get_buffer (elements this)
         \<and> ByteOffset ta = get_byteOffset h (elements this)
         \<and> ArrayLength ta = get_byteLength h (elements this) div ByteSize k
         \<and> view_in_buffer h ta"
proof -
  have k: "type (shape this) = k"
    using assms by (auto simp: asTypedArray_def split: if_splits)
  let ?len = "rat_of_nat (get_byteLength h (elements this)) / rat_of_nat (ByteSize k)"
  have run: "InitializeTypedArrayFromArrayBuffer h (typedArrays k) (get_buffer (elements this))
               (rat_of_nat (get_byteOffset h (elements this))) ?len = Inr ta"
    using assms k by (simp add: asTypedArray_def Let_def)
  have nn: "0 \<le> ?len" by simp
  have "nat \<lfloor>?len\<rfloor> = get_byteLength h (elements this) div ByteSize k"
    by (simp add: floor_divide_of_nat_eq)
  with Initialize_InrD [OF run nn] k show ?thesis by simp
qed

subsection \<open>Numbers and their bytes\<close>

lemma length_le_bytes: "length (le_bytes n x) = n"
  by (induction n arbitrary: x) simp_all

lemma le_value_le_bytes: "le_value (le_bytes n x) = x mod 256 ^ n"
proof (induction n arbitrary: x)
  case 0
  then show ?case by simp
next
  case (Suc n)
  have "uint (word_of_int x :: byte) = x mod 256"
    by (simp add: uint_word_of_int)
  then have "le_value (le_bytes (Suc n) x) = x mod 256 + 256 * (x div 256 mod 256 ^ n)"
    using Suc.IH [of "x div 256"] by simp
  also have "\<dots> = x mod (256 * 256 ^ n)"
    by (simp add: zmod_zmult2_eq)
  finally show ?case by simp
qed

lemma bits_power: "(2::int) ^ (8 * n) = 256 ^ n"
  by (simp add: power_mult)

lemma ToUintN_id: "0 \<le> x \<Longrightarrow> x < 2 ^ n \<Longrightarrow> ToUintN n x = x"
  by (simp add: ToUintN_def)

lemma ToIntN_mod: "ToIntN n (x mod 2 ^ n) = ToIntN n x"
  by (simp add: ToIntN_def)

lemma ToIntN_id:
  assumes "0 < n" and "- (2 ^ (n - 1)) \<le> x" and "x < 2 ^ (n - 1)"
  shows "ToIntN n x = x"
proof -
  have p: "(2::int) ^ n = 2 * 2 ^ (n - 1)"
    using assms(1) by (cases n) simp_all
  show ?thesis
  proof (cases "0 \<le> x")
    case True
    then have "x mod 2 ^ n = x" using assms(3) p by simp
    then show ?thesis using assms(3) by (simp add: ToIntN_def Let_def)
  next
    case False
    have "(x + 2 ^ n) mod 2 ^ n = x + 2 ^ n"
      using False assms(2) p by (intro mod_pos_pos_trivial) linarith+
    then have m: "x mod 2 ^ n = x + 2 ^ n" by simp
    have "(2::int) ^ (n - 1) \<le> x + 2 ^ n" using assms(2) p by linarith
    then show ?thesis unfolding ToIntN_def Let_def m by simp
  qed
qed

lemma ToUintN_range: "0 \<le> ToUintN n x \<and> ToUintN n x < 2 ^ n"
  by (simp add: ToUintN_def)

lemma ToIntN_range:
  assumes "0 < n"
  shows "- (2 ^ (n - 1)) \<le> ToIntN n x \<and> ToIntN n x < 2 ^ (n - 1)"
proof -
  have p: "(2::int) ^ n = 2 * 2 ^ (n - 1)"
    using assms by (cases n) simp_all
  define r where "r = x mod 2 ^ n"
  have "0 \<le> r" and "r < 2 ^ n" by (simp_all add: r_def)
  moreover have "ToIntN n x = (if 2 ^ (n - 1) \<le> r then r - 2 ^ n else r)"
    by (simp add: ToIntN_def Let_def r_def)
  ultimately show ?thesis using p by (cases "2 ^ (n - 1) \<le> r") simp_all
qed

lemma ToIntN_cong: "ToIntN n x mod 2 ^ n = x mod 2 ^ n"
  by (simp add: ToIntN_def Let_def)

lemma ElementSize_pos: "0 < TypedArrayElementSize C"
  by (cases C) simp_all

text \<open>Decoding what was encoded, for a value in the range of the element type.\<close>

lemma RawBytesToNumeric_le_bytes:
  assumes "\<not> IsFloatElementType C" and "in_range C n"
  shows "RawBytesToNumeric C (le_bytes (TypedArrayElementSize C) n) =
           (if IsBigIntElementType C then BigInt n else Number (rat_of_int n))"
proof -
  let ?sz = "TypedArrayElementSize C"
  have v: "le_value (le_bytes ?sz n) = n mod 2 ^ (8 * ?sz)"
    by (simp add: le_value_le_bytes bits_power)
  have "(if IsUnsignedElementType C then le_value (le_bytes ?sz n)
         else ToIntN (8 * ?sz) (le_value (le_bytes ?sz n))) = n"
  proof (cases "IsUnsignedElementType C")
    case True
    then show ?thesis using assms(2) v by (simp add: in_range_def Let_def)
  next
    case False
    have "0 < 8 * ?sz" using ElementSize_pos [of C] by simp
    then have "ToIntN (8 * ?sz) n = n"
      using assms(2) False by (intro ToIntN_id) (simp_all add: in_range_def Let_def)
    then show ?thesis using False v by (simp add: ToIntN_mod)
  qed
  then show ?thesis using assms(1) by (simp add: RawBytesToNumeric_def Let_def)
qed

lemma write_then_read_bytes:
  assumes "view_in_buffer h ta" and "i < ArrayLength ta"
    and "convert (TypedArrayName ta) v = Inr n"
  shows "write_then_read h ta i v =
           Inr (RawBytesToNumeric (TypedArrayName ta)
                  (le_bytes (TypedArrayElementSize (TypedArrayName ta)) n))"
proof -
  let ?C = "TypedArrayName ta"
  let ?raw = "le_bytes (TypedArrayElementSize ?C) n"
  have enc: "NumericToRawBytes ?C v = Inr ?raw"
    using assms(3) by (simp add: NumericToRawBytes_def)
  have "GetRawBytes (SetRawBytes h ta i ?raw) ta i = Some ?raw"
    using assms(1,2) by (intro GetRawBytes_SetRawBytes_same) (simp_all add: length_le_bytes)
  then show ?thesis
    using enc
    by (simp add: write_then_read_def TypedArraySetElement_def TypedArrayGetElement_def)
qed

lemma write_then_read_converted:
  assumes "view_in_buffer h ta" and "i < ArrayLength ta"
    and "convert (TypedArrayName ta) v = Inr n"
    and "in_range (TypedArrayName ta) n"
    and "\<not> IsFloatElementType (TypedArrayName ta)"
  shows "write_then_read h ta i v =
           Inr (if IsBigIntElementType (TypedArrayName ta) then BigInt n
                else Number (rat_of_int n))"
  using write_then_read_bytes [OF assms(1,2,3)] RawBytesToNumeric_le_bytes [OF assms(5,4)]
  by simp

lemma ToIntegerOrInfinity_of_int: "ToIntegerOrInfinity (rat_of_int n) = n"
  by (simp add: ToIntegerOrInfinity_def)

lemma ToUint8Clamp_of_int: "0 \<le> n \<Longrightarrow> n < 256 \<Longrightarrow> ToUint8Clamp (rat_of_int n) = n"
  by (auto simp: ToUint8Clamp_def Let_def)

lemma convert_Number_of_int:
  assumes "\<not> IsBigIntElementType C" and "\<not> IsFloatElementType C" and "in_range C n"
  shows "convert C (Number (rat_of_int n)) = Inr n"
  using assms
  by (cases C)
     (simp_all add: from_Number_def in_range_def ToUintN_id ToIntN_id
        ToIntegerOrInfinity_of_int ToUint8Clamp_of_int)

lemma representable_integer_convert:
  assumes "representable_integer C v"
  shows "\<exists>n. convert C v = Inr n \<and> in_range C n
           \<and> v = (if IsBigIntElementType C then BigInt n else Number (rat_of_int n))"
proof (cases v)
  case Undefined
  then show ?thesis using assms by (simp add: representable_integer_def)
next
  case (Number x)
  with assms have nb: "\<not> IsBigIntElementType C" and nf: "\<not> IsFloatElementType C"
    and int: "rat_of_int \<lfloor>x\<rfloor> = x" and r: "in_range C \<lfloor>x\<rfloor>"
    by (simp_all add: representable_integer_def is_integer_def)
  have "convert C (Number (rat_of_int \<lfloor>x\<rfloor>)) = Inr \<lfloor>x\<rfloor>"
    using nb nf r by (rule convert_Number_of_int)
  then have c: "convert C v = Inr \<lfloor>x\<rfloor>"
    unfolding Number int .
  have "v = Number (rat_of_int \<lfloor>x\<rfloor>)"
    unfolding Number int ..
  then have "v = (if IsBigIntElementType C then BigInt \<lfloor>x\<rfloor>
                  else Number (rat_of_int \<lfloor>x\<rfloor>))"
    using nb by (simp only: if_False)
  with c r show ?thesis by blast
next
  case (BigInt n)
  with assms have b: "IsBigIntElementType C" and r: "in_range C n"
    by (simp_all add: representable_integer_def)
  have "convert C (BigInt n) = Inr n"
    using b r by (cases C) (simp_all add: from_BigInt_def in_range_def ToUintN_id ToIntN_id)
  then show ?thesis using BigInt b r by simp
qed (use assms in \<open>simp_all add: representable_integer_def\<close>)

lemma write_then_read_representable_integer:
  assumes "view_in_buffer h ta" and "i < ArrayLength ta"
    and "representable_integer (TypedArrayName ta) v"
  shows "write_then_read h ta i v = Inr v"
proof -
  from representable_integer_convert [OF assms(3)] obtain n where
    c: "convert (TypedArrayName ta) v = Inr n" and r: "in_range (TypedArrayName ta) n"
    and v: "v = (if IsBigIntElementType (TypedArrayName ta) then BigInt n
                 else Number (rat_of_int n))"
    by blast
  have nf: "\<not> IsFloatElementType (TypedArrayName ta)"
    using assms(3) by (simp add: representable_integer_def)
  show ?thesis using write_then_read_converted [OF assms(1,2) c r nf] v by simp
qed

subsection \<open>Floating-point numbers and their encodings\<close>

lemma round_half_even_of_int: "round_half_even (rat_of_int m) = m"
  by (simp add: round_half_even_def)

lemma powi_nat_bounds:
  assumes "0 < (p::int)"
  shows "(2::rat) powi (bitlen p - 1) \<le> rat_of_int p" and "rat_of_int p < 2 powi bitlen p"
proof -
  from bitlen_bounds [OF assms] have lo: "2 ^ nat (bitlen p - 1) \<le> p" and hi: "p < 2 ^ nat (bitlen p)"
    by simp_all
  have b: "1 \<le> bitlen p" using assms by (auto simp: bitlen_alt_def)
  have "(2::rat) powi (bitlen p - 1) = 2 ^ nat (bitlen p - 1)"
    using b by (simp add: power_int_def)
  also have "\<dots> = rat_of_int (2 ^ nat (bitlen p - 1))" by simp
  also have "\<dots> \<le> rat_of_int p" using lo by (simp only: of_int_le_iff)
  finally show "(2::rat) powi (bitlen p - 1) \<le> rat_of_int p" .
  have "rat_of_int p < rat_of_int (2 ^ nat (bitlen p))" using hi by (simp only: of_int_less_iff)
  also have "\<dots> = 2 powi bitlen p" using b by (simp add: power_int_def)
  finally show "rat_of_int p < 2 powi bitlen p" .
qed

lemma floor_log2_bounds:
  assumes "0 < x"
  shows "2 powi floor_log2 x \<le> x \<and> x < 2 powi (floor_log2 x + 1)"
proof -
  obtain p q where pq: "quotient_of x = (p, q)" by (cases "quotient_of x")
  have q: "0 < q" using pq by (rule quotient_of_denom_pos)
  have x: "x = rat_of_int p / rat_of_int q" using pq by (rule quotient_of_div)
  have p: "0 < p" using assms q x by (simp add: zero_less_divide_iff)
  let ?k = "bitlen p - bitlen q"
  note P = powi_nat_bounds [OF p] and Q = powi_nat_bounds [OF q]
  have qpos: "0 < rat_of_int q" using q by simp
  have up: "x < 2 powi (?k + 1)"
  proof -
    have "rat_of_int p < 2 powi bitlen p" by (rule P(2))
    also have "\<dots> = 2 powi (?k + 1) * 2 powi (bitlen q - 1)"
      by (simp flip: power_int_add)
    also have "\<dots> \<le> 2 powi (?k + 1) * rat_of_int q"
      using Q(1) by (intro mult_left_mono) simp_all
    finally show ?thesis using qpos unfolding x by (simp add: pos_divide_less_eq)
  qed
  have low: "2 powi (?k - 1) \<le> x"
  proof -
    have "2 powi (?k - 1) * rat_of_int q \<le> 2 powi (?k - 1) * 2 powi bitlen q"
      using Q(2) by (intro mult_left_mono) simp_all
    also have "\<dots> = 2 powi (bitlen p - 1)"
      by (simp flip: power_int_add)
    also have "\<dots> \<le> rat_of_int p" by (rule P(1))
    finally show ?thesis using qpos unfolding x by (simp add: pos_le_divide_eq)
  qed
  show ?thesis
  proof (cases "2 powi ?k \<le> x")
    case True
    then have "floor_log2 x = ?k" using pq by (simp add: floor_log2_def)
    then show ?thesis using True up by simp
  next
    case False
    then have "floor_log2 x = ?k - 1" using pq by (simp add: floor_log2_def)
    then show ?thesis using False low by simp
  qed
qed

lemma floor_log2_eqI:
  assumes "2 powi k \<le> x" and "x < 2 powi (k + 1)"
  shows "floor_log2 x = k"
proof -
  have "0 < (2::rat) powi k" by simp
  then have pos: "0 < x" using assms(1) by linarith
  from floor_log2_bounds [OF pos] have
    a: "2 powi floor_log2 x \<le> x" and b: "x < 2 powi (floor_log2 x + 1)" by simp_all
  have "(2::rat) powi floor_log2 x < 2 powi (k + 1)" using a assms(2) by linarith
  then have "floor_log2 x < k + 1"
    by (metis power_int_increasing not_le one_le_numeral)
  moreover have "(2::rat) powi k < 2 powi (floor_log2 x + 1)" using b assms(1) by linarith
  then have "k < floor_log2 x + 1"
    by (metis power_int_increasing not_le one_le_numeral)
  ultimately show ?thesis by linarith
qed

lemma floor_log2_less:
  assumes "0 < x" and "x < 2 powi k"
  shows "floor_log2 x < k"
proof -
  from floor_log2_bounds [OF assms(1)] have "2 powi floor_log2 x \<le> x" by simp
  then have "(2::rat) powi floor_log2 x < 2 powi k" using assms(2) by linarith
  then show ?thesis
    by (metis power_int_increasing not_le one_le_numeral)
qed

lemma fraction_field_bits:
  assumes "0 \<le> f" and "f < 2 ^ t"
  shows "fraction_field t (float_bits w t s e f) = f"
proof -
  have "float_bits w t s e f = f + ((if s then 2 ^ w else 0) + e) * 2 ^ t"
    by (simp add: float_bits_def power_add algebra_simps)
  then show ?thesis using assms by (simp add: fraction_field_def)
qed

lemma exponent_field_bits:
  assumes "0 \<le> f" and "f < 2 ^ t" and "0 \<le> e" and "e < 2 ^ w"
  shows "exponent_field w t (float_bits w t s e f) = e"
proof -
  have "float_bits w t s e f = f + ((if s then 2 ^ w else 0) + e) * 2 ^ t"
    by (simp add: float_bits_def power_add algebra_simps)
  then have "float_bits w t s e f div 2 ^ t = (if s then 2 ^ w else 0) + e"
    using assms(1,2) by simp
  then show ?thesis using assms(3,4) by (simp add: exponent_field_def)
qed

lemma sign_field_bits:
  assumes "0 \<le> f" and "f < 2 ^ t" and "0 \<le> e" and "e < 2 ^ w"
  shows "sign_field w t (float_bits w t s e f) = s"
proof -
  have "e * 2 ^ t \<le> (2 ^ w - 1) * 2 ^ t"
    using assms(4) by (intro mult_right_mono) simp_all
  then have r: "e * 2 ^ t + f < 2 ^ (w + t)"
    using assms(2) by (simp add: power_add algebra_simps)
  have n: "0 \<le> e * 2 ^ t + f" using assms(1,3) by simp
  have "float_bits w t s e f div 2 ^ (w + t) = (if s then 1 else 0)"
  proof (cases s)
    case True
    have "(e * 2 ^ t + f + 1 * 2 ^ (w + t)) div 2 ^ (w + t) = 1"
      using r n by (simp only: div_mult_self1 [of "2 ^ (w + t)"]) (simp add: div_pos_pos_trivial)
    then show ?thesis using True by (simp add: float_bits_def add.commute add.left_commute)
  next
    case False
    then show ?thesis using r n by (simp add: float_bits_def div_pos_pos_trivial)
  qed
  then show ?thesis by (simp add: sign_field_def)
qed

lemma float_of_bits_fields:
  assumes "0 \<le> f" and "f < 2 ^ t" and "0 \<le> e" and "e < 2 ^ w"
  shows "float_of_bits w t (float_bits w t s e f) = float_value w t s e f"
  using assms
  by (simp add: float_of_bits_def fraction_field_bits exponent_field_bits sign_field_bits)

lemma field_ranges:
  "0 \<le> fraction_field t n" "fraction_field t n < 2 ^ t"
  "0 \<le> exponent_field w t n" "exponent_field w t n < 2 ^ w"
  by (simp_all add: fraction_field_def exponent_field_def)

lemma float_bits_range:
  assumes "0 \<le> f" and "f < 2 ^ t" and "0 \<le> e" and "e < 2 ^ w"
  shows "0 \<le> float_bits w t s e f \<and> float_bits w t s e f < 2 ^ (1 + w + t)"
proof -
  have "e * 2 ^ t \<le> (2 ^ w - 1) * 2 ^ t"
    using assms(4) by (intro mult_right_mono) simp_all
  then have r: "e * 2 ^ t + f < 2 ^ (w + t)"
    using assms(2) by (simp add: power_add algebra_simps)
  have n: "0 \<le> e * 2 ^ t + f" using assms(1,3) by simp
  have "(2::int) ^ (1 + w + t) = 2 ^ (w + t) + 2 ^ (w + t)" by (simp add: power_add)
  then show ?thesis using r n by (simp add: float_bits_def)
qed

text \<open>A finite value that is not zero is encoded as the fields it came from.\<close>

lemma round_magnitude_exact:
  assumes w: "1 < w" and f: "0 \<le> f" "f < 2 ^ t" and e: "0 \<le> e" "e < 2 ^ w - 1"
    and nz: "\<not> (e = 0 \<and> f = 0)"
  shows "round_magnitude w t
           (rat_of_int (if e = 0 then f else 2 ^ t + f)
              * 2 powi ((if e = 0 then 1 else e) - bias w - int t))
         = float_bits w t False e f"
proof -
  define m where "m = (if e = 0 then f else 2 ^ t + f)"
  define q where "q = (if e = 0 then 1 else e)"
  define a where "a = rat_of_int m * 2 powi (q - bias w - int t)"
  have q1: "1 \<le> q" using e by (simp add: q_def)
  have mpos: "0 < m" using f e nz by (auto simp: m_def)
  have mhi: "m < 2 ^ (t + 1)" using f by (simp add: m_def)
  have two_w: "(2::int) ^ w = 2 * 2 ^ (w - 1)" using w by (cases w) simp_all
  have "(2::int) ^ 1 \<le> 2 ^ (w - 1)" using w by (intro power_increasing) simp_all
  then have big: "(2::int) \<le> 2 ^ (w - 1)" by simp
  have qb: "q - bias w \<le> bias w"
  proof (cases "e = 0")
    case True
    then show ?thesis using big by (simp add: q_def bias_def)
  next
    case False
    then show ?thesis using e(2) two_w by (simp add: q_def bias_def)
  qed
  have apos: "0 < a" using mpos by (simp add: a_def)
  have scale: "a * 2 powi (int t - (q - bias w)) = rat_of_int m"
  proof -
    have "a * 2 powi (int t - (q - bias w))
            = rat_of_int m * (2 powi (q - bias w - int t) * 2 powi (int t - (q - bias w)))"
      by (simp add: a_def)
    also have "2 powi (q - bias w - int t) * 2 powi (int t - (q - bias w)) = (1::rat)"
      by (simp flip: power_int_add)
    finally show ?thesis by simp
  qed
  have a_eq: "a = rat_of_int m * 2 powi (- int t) * 2 powi (q - bias w)"
  proof -
    have "(2::rat) powi (q - bias w - int t) = 2 powi (- int t) * 2 powi (q - bias w)"
      by (simp flip: power_int_add)
    then show ?thesis by (simp add: a_def)
  qed
  have frac: "rat_of_int m * 2 powi (- int t) = rat_of_int m / 2 ^ t"
    by (simp add: power_int_minus divide_inverse)
  have ex: "max (floor_log2 a) (1 - bias w) = q - bias w"
  proof (cases "e = 0")
    case True
    then have "m < 2 ^ t" and qe: "q = 1" using f by (simp_all add: m_def q_def)
    then have "rat_of_int m < rat_of_int (2 ^ t)" by (simp only: of_int_less_iff)
    then have "rat_of_int m / 2 ^ t < 1" by simp
    then have "a < 1 * 2 powi (q - bias w)"
      unfolding a_eq frac by (intro mult_strict_right_mono) simp_all
    then have "floor_log2 a < q - bias w" using apos by (intro floor_log2_less) simp_all
    then show ?thesis using qe by simp
  next
    case False
    then have lo: "2 ^ t \<le> m" using f by (simp add: m_def)
    then have "rat_of_int (2 ^ t) \<le> rat_of_int m" by (simp only: of_int_le_iff)
    then have "1 \<le> rat_of_int m / 2 ^ t" by simp
    then have l: "1 * 2 powi (q - bias w) \<le> a"
      unfolding a_eq frac by (intro mult_right_mono) simp_all
    have "rat_of_int m < rat_of_int (2 ^ (t + 1))" using mhi by (simp only: of_int_less_iff)
    then have "rat_of_int m / 2 ^ t < 2" by (simp add: pos_divide_less_eq)
    then have "a < 2 * 2 powi (q - bias w)"
      unfolding a_eq frac by (intro mult_strict_right_mono) simp_all
    also have "\<dots> = 2 powi (q - bias w + 1)"
      by (simp add: power_int_add)
    finally have "floor_log2 a = q - bias w" using l by (intro floor_log2_eqI) simp_all
    then show ?thesis using q1 by simp
  qed
  have sig: "round_half_even (a * 2 powi (int t - (q - bias w))) = m"
    unfolding scale by (rule round_half_even_of_int)
  have nocarry: "m \<noteq> 2 ^ (t + 1)" using mhi by simp
  have "round_magnitude w t a =
          (if m < 2 ^ t then float_bits w t False 0 m
           else float_bits w t False (q - bias w + bias w) (m - 2 ^ t))"
    using qb nocarry by (simp add: round_magnitude_def ex sig Let_def)
  also have "\<dots> = float_bits w t False e f"
    using f e nz by (auto simp: m_def q_def)
  finally show ?thesis by (simp add: a_def m_def q_def)
qed

lemma float_value_cases:
  assumes "e \<noteq> 2 ^ w - 1" and "\<not> (e = 0 \<and> f = 0)"
  shows "float_value w t s e f =
     Number ((if s then - 1 else 1) * (rat_of_int (if e = 0 then f else 2 ^ t + f)
                   * 2 powi ((if e = 0 then 1 else e) - bias w - int t)))"
  using assms by (simp add: float_value_def)

text \<open>Whatever the fields hold, the value they stand for is encoded as fields that
  stand for the same value: the same fields, but for a NaN, which becomes the one
  NaN written.\<close>

lemma bits_of_float_value:
  assumes w: "1 < w" and t: "0 < t" and f: "0 \<le> f" "f < 2 ^ t" and e: "0 \<le> e" "e < 2 ^ w"
  shows "\<exists>n. bits_of_float w t (float_value w t s e f) = Inr n
           \<and> 0 \<le> n \<and> n < 2 ^ (1 + w + t)
           \<and> float_of_bits w t n = float_value w t s e f"
proof -
  have "(2::int) ^ 1 \<le> 2 ^ w" using w by (intro power_increasing) simp_all
  then have one: "(1::int) \<le> 2 ^ w - 1" by simp
  have half: "(0::int) \<le> 2 ^ (t - 1)" "(2::int) ^ (t - 1) < 2 ^ t" "(2::int) ^ (t - 1) \<noteq> 0"
    using t by simp_all
  have top: "(0::int) \<le> 2 ^ w - 1" "(2::int) ^ w - 1 < 2 ^ w" by simp_all
  consider (nan) "e = 2 ^ w - 1" "f \<noteq> 0" | (inf) "e = 2 ^ w - 1" "f = 0"
    | (zero) "e \<noteq> 2 ^ w - 1" "e = 0" "f = 0" | (fin) "e \<noteq> 2 ^ w - 1" "\<not> (e = 0 \<and> f = 0)"
    by blast
  then show ?thesis
  proof cases
    case nan
    then have v: "float_value w t s e f = NaN" by (simp add: float_value_def)
    have d: "float_of_bits w t (float_bits w t False (2 ^ w - 1) (2 ^ (t - 1))) = NaN"
      using float_of_bits_fields [OF half(1,2) top, of False] half(3)
      by (simp add: float_value_def)
    show ?thesis
      using d float_bits_range [OF half(1,2) top, of False]
      by (simp add: v bits_of_float_def)
  next
    case inf
    then have v: "float_value w t s e f = (if s then NegInfinity else Infinity)"
      by (simp add: float_value_def)
    have z: "(0::int) \<le> 0" "(0::int) < 2 ^ t" by simp_all
    have d: "float_of_bits w t (float_bits w t s (2 ^ w - 1) 0) = float_value w t s e f"
      using float_of_bits_fields [OF z top, of s] inf by simp
    show ?thesis
      using d float_bits_range [OF z top, of s] v
      by (cases s) (simp_all add: bits_of_float_def)
  next
    case zero
    then have v: "float_value w t s e f = (if s then NegZero else Number 0)"
      using one by (simp add: float_value_def)
    have z: "(0::int) \<le> 0" "(0::int) < 2 ^ t" "(0::int) < 2 ^ w" by simp_all
    have d: "float_of_bits w t (float_bits w t s 0 0) = float_value w t s e f"
      using float_of_bits_fields [OF z(1,2,1,3), of s] zero by simp
    have p: "float_bits w t False 0 0 = 0" by (simp add: float_bits_def)
    show ?thesis
      using d float_bits_range [OF z(1,2,1,3), of s] v p
      by (cases s) (simp_all add: bits_of_float_def)
  next
    case fin
    define a where "a = rat_of_int (if e = 0 then f else 2 ^ t + f)
                * 2 powi ((if e = 0 then 1 else e) - bias w - int t)"
    have e': "e < 2 ^ w - 1" using e fin by simp
    have mpos: "0 < (if e = 0 then f else 2 ^ t + f)" using f e fin by auto
    then have apos: "0 < a" by (simp add: a_def)
    have v: "float_value w t s e f = Number ((if s then - 1 else 1) * a)"
      unfolding a_def using fin by (rule float_value_cases)
    have mag: "round_magnitude w t a = float_bits w t False e f"
      unfolding a_def using w f e(1) e' fin(2) by (rule round_magnitude_exact)
    have split: "float_bits w t s e f = (if s then 2 ^ (w + t) else 0) + float_bits w t False e f"
      by (simp add: float_bits_def)
    have enc: "bits_of_float w t (float_value w t s e f) = Inr (float_bits w t s e f)"
    proof (cases s)
      case True
      have "- a < 0" "- a \<noteq> 0" "\<bar>- a\<bar> = a" using apos by simp_all
      then have "bits_of_float w t (Number (- a)) = Inr (2 ^ (w + t) + round_magnitude w t a)"
        by (simp add: bits_of_float_def)
      then show ?thesis using True v mag split by simp
    next
      case False
      have "\<not> a < 0" "a \<noteq> 0" "\<bar>a\<bar> = a" using apos by simp_all
      then have "bits_of_float w t (Number a) = Inr (round_magnitude w t a)"
        by (simp add: bits_of_float_def)
      then show ?thesis using False v mag split by simp
    qed
    show ?thesis
      using enc float_bits_range [OF f e, of s] float_of_bits_fields [OF f e, of s] by simp
  qed
qed

lemma le_value_range: "0 \<le> le_value raw \<and> le_value raw < 256 ^ length raw"
proof (induction raw)
  case Nil
  then show ?case by simp
next
  case (Cons b raw)
  have "0 \<le> uint b" and "uint b < 256"
    using uint_lt2p [of b] by simp_all
  then show ?case using Cons by simp
qed

text \<open>Every value that some bytes of a floating-point element stand for is written
  as bytes that stand for the same value.\<close>

lemma float_pattern_roundtrip:
  assumes "1 < w" and "0 < t" and "(2::int) ^ (1 + w + t) = 256 ^ sz"
  shows "\<exists>n. bits_of_float w t (float_of_bits w t m) = Inr n
           \<and> float_of_bits w t (le_value (le_bytes sz n)) = float_of_bits w t m"
proof -
  have "float_of_bits w t m =
          float_value w t (sign_field w t m) (exponent_field w t m) (fraction_field t m)"
    by (simp add: float_of_bits_def)
  moreover have fr: "0 \<le> fraction_field t m" "fraction_field t m < 2 ^ t"
    "0 \<le> exponent_field w t m" "exponent_field w t m < 2 ^ w"
    by (rule field_ranges)+
  note bits_of_float_value [OF assms(1,2) fr, where s = "sign_field w t m"]
  ultimately
  obtain n where enc: "bits_of_float w t (float_of_bits w t m) = Inr n"
    and lo: "0 \<le> n" and hi: "n < 2 ^ (1 + w + t)"
    and dec: "float_of_bits w t n = float_of_bits w t m"
    by auto
  have "le_value (le_bytes sz n) = n"
    using lo hi assms(3) by (simp add: le_value_le_bytes)
  with enc dec show ?thesis by simp
qed

lemma float_convert_roundtrip:
  assumes "IsFloatElementType C"
  shows "\<exists>n. convert C (RawBytesToNumeric C raw) = Inr n
           \<and> RawBytesToNumeric C (le_bytes (TypedArrayElementSize C) n)
               = RawBytesToNumeric C raw"
proof (cases "C = Float32Array")
  case True
  from float_pattern_roundtrip [of 8 23 4 "le_value raw"] show ?thesis
    using True by (simp add: RawBytesToNumeric_def)
next
  case False
  then have C: "C = Float64Array" using assms by (cases C) simp_all
  from float_pattern_roundtrip [of 11 52 8 "le_value raw"] show ?thesis
    using C by (simp add: RawBytesToNumeric_def)
qed

lemma integer_pattern_representable:
  assumes "\<not> IsFloatElementType C" and "length raw = TypedArrayElementSize C"
  shows "representable_integer C (RawBytesToNumeric C raw)"
proof -
  let ?bits = "8 * TypedArrayElementSize C"
  define n where "n = (if IsUnsignedElementType C then le_value raw
                       else ToIntN ?bits (le_value raw))"
  have "0 \<le> le_value raw" and "le_value raw < 2 ^ ?bits"
    using le_value_range [of raw] assms(2) by (simp_all add: bits_power)
  moreover have "0 < ?bits" using ElementSize_pos [of C] by simp
  ultimately have r: "in_range C n"
    using ToIntN_range [of ?bits "le_value raw"]
    by (simp add: in_range_def n_def Let_def)
  have v: "RawBytesToNumeric C raw =
             (if IsBigIntElementType C then BigInt n else Number (rat_of_int n))"
    using assms(1) by (simp add: RawBytesToNumeric_def n_def Let_def)
  show ?thesis
    using assms(1) r by (simp add: v representable_integer_def is_integer_def)
qed

lemma write_then_read_pattern:
  assumes "view_in_buffer h ta" and "i < ArrayLength ta"
    and "length raw = TypedArrayElementSize (TypedArrayName ta)"
  shows "write_then_read h ta i (RawBytesToNumeric (TypedArrayName ta) raw)
           = Inr (RawBytesToNumeric (TypedArrayName ta) raw)"
proof (cases "IsFloatElementType (TypedArrayName ta)")
  case True
  from float_convert_roundtrip [OF True, of raw] obtain n where
    c: "convert (TypedArrayName ta) (RawBytesToNumeric (TypedArrayName ta) raw) = Inr n"
    and d: "RawBytesToNumeric (TypedArrayName ta)
              (le_bytes (TypedArrayElementSize (TypedArrayName ta)) n)
            = RawBytesToNumeric (TypedArrayName ta) raw"
    by blast
  show ?thesis using write_then_read_bytes [OF assms(1,2) c] d by simp
next
  case False
  show ?thesis
    using assms(1,2) integer_pattern_representable [OF False assms(3)]
    by (rule write_then_read_representable_integer)
qed

lemma alias_visibility':
  assumes "ViewedArrayBuffer v2 = ViewedArrayBuffer v1"
    and "view_in_buffer h v1" and "view_in_buffer h v2"
    and "i1 < ArrayLength v1" and "i2 < ArrayLength v2"
    and "length raw = TypedArrayElementSize (TypedArrayName v1)"
    and "m < TypedArrayElementSize (TypedArrayName v2)"
  shows "\<exists>old new. GetRawBytes h v2 i2 = Some old
           \<and> GetRawBytes (SetRawBytes h v1 i1 raw) v2 i2 = Some new
           \<and> length new = TypedArrayElementSize (TypedArrayName v2)
           \<and> new ! m =
               (if byte_position v1 i1 0 \<le> byte_position v2 i2 m
                   \<and> byte_position v2 i2 m < byte_position v1 i1 0 + length raw
                then raw ! (byte_position v2 i2 m - byte_position v1 i1 0) else old ! m)"
  using alias_visibility [OF assms] assms(6)
  by (auto simp: byte_position_def Let_def)

text \<open>
  Claim C5. The typed array of a successful \<^verbatim>\<open>asTypedArray\<close> views the buffer of
  \<^verbatim>\<open>elements\<close> itself, from the same byte offset, and as many whole elements as
  the bytes of \<^verbatim>\<open>elements\<close> hold. At every index in range: the bytes written
  through it are the bytes read back, and no other buffer changes; every value
  that the element type holds (every value that some bytes of an element stand
  for: for the integer kinds the integers of the range, for f32 and f64 the finite
  binary32 and binary64 numbers, the zeros, the infinities and NaN), written and
  read back, is that value; a byte written through it is the byte that any other
  view of the same buffer reads at that position, \<^verbatim>\<open>elements\<close> among them, and no
  other byte changes; and in the other direction, what another view writes is what
  it reads.
\<close>

theorem asTypedArray_aliases_buffer:
  assumes ok: "asTypedArray toString h this k = Inr ta" and i: "i < ArrayLength ta"
  shows "ViewedArrayBuffer ta = ViewedArrayBuffer (elements this)
       \<and> ByteOffset ta = ByteOffset (elements this)
       \<and> ArrayLength ta =
           ArrayLength (elements this) * TypedArrayElementSize (TypedArrayName (elements this))
             div ByteSize k
       \<and> (wf_view h (elements this) \<longrightarrow> view_in_buffer h (elements this))
       \<and> (\<forall>raw. length raw = ByteSize k \<longrightarrow>
             GetRawBytes (SetRawBytes h ta i raw) ta i = Some raw)
       \<and> (\<forall>raw b. b \<noteq> ViewedArrayBuffer (elements this) \<longrightarrow>
             SetRawBytes h ta i raw b = h b)
       \<and> (\<forall>raw. length raw = ByteSize k \<longrightarrow>
             write_then_read h ta i (RawBytesToNumeric (typedArrays k) raw)
               = Inr (RawBytesToNumeric (typedArrays k) raw))
       \<and> (\<forall>v. representable_integer (typedArrays k) v \<longrightarrow>
             write_then_read h ta i v = Inr v)
       \<and> (\<forall>raw other j m.
             length raw = ByteSize k
             \<and> ViewedArrayBuffer other = ViewedArrayBuffer (elements this)
             \<and> view_in_buffer h other \<and> j < ArrayLength other
             \<and> m < TypedArrayElementSize (TypedArrayName other) \<longrightarrow>
             (\<exists>old new. GetRawBytes h other j = Some old
                \<and> GetRawBytes (SetRawBytes h ta i raw) other j = Some new
                \<and> length new = TypedArrayElementSize (TypedArrayName other)
                \<and> new ! m =
                    (if byte_position ta i 0 \<le> byte_position other j m
                        \<and> byte_position other j m < byte_position ta i 0 + length raw
                     then raw ! (byte_position other j m - byte_position ta i 0)
                     else old ! m)))
       \<and> (\<forall>raw other j m.
             length raw = TypedArrayElementSize (TypedArrayName other)
             \<and> ViewedArrayBuffer other = ViewedArrayBuffer (elements this)
             \<and> view_in_buffer h other \<and> j < ArrayLength other \<and> m < ByteSize k \<longrightarrow>
             (\<exists>old new. GetRawBytes h ta i = Some old
                \<and> GetRawBytes (SetRawBytes h other j raw) ta i = Some new
                \<and> length new = ByteSize k
                \<and> new ! m =
                    (if byte_position other j 0 \<le> byte_position ta i m
                        \<and> byte_position ta i m < byte_position other j 0 + length raw
                     then raw ! (byte_position ta i m - byte_position other j 0)
                     else old ! m)))"
proof -
  let ?e = "elements this"
  from asTypedArray_InrD [OF ok] have
    name: "TypedArrayName ta = typedArrays k"
    and buf0: "ViewedArrayBuffer ta = get_buffer ?e"
    and off0: "ByteOffset ta = get_byteOffset h ?e"
    and len0: "ArrayLength ta = get_byteLength h ?e div ByteSize k"
    and inb: "view_in_buffer h ta"
    by simp_all
  have buf: "ViewedArrayBuffer ta = ViewedArrayBuffer ?e"
    using buf0 by (simp add: get_buffer_def)
  from view_in_buffer_Data [OF inb] buf have nd: "\<not> IsDetachedBuffer h (ViewedArrayBuffer ?e)"
    by (auto simp: IsDetachedBuffer_def)
  have off: "ByteOffset ta = ByteOffset ?e"
    using off0 nd by (simp add: get_byteOffset_def)
  have len: "ArrayLength ta =
      ArrayLength ?e * TypedArrayElementSize (TypedArrayName ?e) div ByteSize k"
    using len0 nd by (simp add: get_byteLength_def)
  have wf: "wf_view h ?e \<longrightarrow> view_in_buffer h ?e"
    using nd by (cases "h (ViewedArrayBuffer ?e)")
      (simp_all add: wf_view_def view_in_buffer_def IsDetachedBuffer_def)
  have sz: "TypedArrayElementSize (TypedArrayName ta) = ByteSize k"
    using name by (simp add: ByteSize_typedArrays)
  have bits: "\<forall>raw. length raw = ByteSize k \<longrightarrow>
      GetRawBytes (SetRawBytes h ta i raw) ta i = Some raw"
    using GetRawBytes_SetRawBytes_same [OF inb i] sz by simp
  have frame: "\<forall>raw b. b \<noteq> ViewedArrayBuffer ?e \<longrightarrow> SetRawBytes h ta i raw b = h b"
    using buf by (simp add: SetRawBytes_def Let_def split: ArrayBuffer.splits)
  have held: "\<forall>raw. length raw = ByteSize k \<longrightarrow>
      write_then_read h ta i (RawBytesToNumeric (typedArrays k) raw)
        = Inr (RawBytesToNumeric (typedArrays k) raw)"
    using write_then_read_pattern [OF inb i] sz name by simp
  have vals: "\<forall>v. representable_integer (typedArrays k) v \<longrightarrow>
      write_then_read h ta i v = Inr v"
    using write_then_read_representable_integer [OF inb i] name by simp
  have there: "\<forall>raw other j m.
      length raw = ByteSize k \<and> ViewedArrayBuffer other = ViewedArrayBuffer ?e
      \<and> view_in_buffer h other \<and> j < ArrayLength other
      \<and> m < TypedArrayElementSize (TypedArrayName other) \<longrightarrow>
      (\<exists>old new. GetRawBytes h other j = Some old
         \<and> GetRawBytes (SetRawBytes h ta i raw) other j = Some new
         \<and> length new = TypedArrayElementSize (TypedArrayName other)
         \<and> new ! m =
             (if byte_position ta i 0 \<le> byte_position other j m
                 \<and> byte_position other j m < byte_position ta i 0 + length raw
              then raw ! (byte_position other j m - byte_position ta i 0)
              else old ! m))"
  proof (intro allI impI)
    fix raw :: "byte list" and other j m
    assume a: "length raw = ByteSize k \<and> ViewedArrayBuffer other = ViewedArrayBuffer ?e
      \<and> view_in_buffer h other \<and> j < ArrayLength other
      \<and> m < TypedArrayElementSize (TypedArrayName other)"
    then have r: "length raw = TypedArrayElementSize (TypedArrayName ta)" using sz by simp
    have s: "ViewedArrayBuffer other = ViewedArrayBuffer ta" using a buf by simp
    from a show "\<exists>old new. GetRawBytes h other j = Some old
         \<and> GetRawBytes (SetRawBytes h ta i raw) other j = Some new
         \<and> length new = TypedArrayElementSize (TypedArrayName other)
         \<and> new ! m =
             (if byte_position ta i 0 \<le> byte_position other j m
                 \<and> byte_position other j m < byte_position ta i 0 + length raw
              then raw ! (byte_position other j m - byte_position ta i 0)
              else old ! m)"
      by (intro alias_visibility' s inb i r) simp_all
  qed
  have hither: "\<forall>raw other j m.
      length raw = TypedArrayElementSize (TypedArrayName other)
      \<and> ViewedArrayBuffer other = ViewedArrayBuffer ?e
      \<and> view_in_buffer h other \<and> j < ArrayLength other \<and> m < ByteSize k \<longrightarrow>
      (\<exists>old new. GetRawBytes h ta i = Some old
         \<and> GetRawBytes (SetRawBytes h other j raw) ta i = Some new
         \<and> length new = ByteSize k
         \<and> new ! m =
             (if byte_position other j 0 \<le> byte_position ta i m
                 \<and> byte_position ta i m < byte_position other j 0 + length raw
              then raw ! (byte_position ta i m - byte_position other j 0)
              else old ! m))"
  proof (intro allI impI)
    fix raw :: "byte list" and other j m
    assume a: "length raw = TypedArrayElementSize (TypedArrayName other)
      \<and> ViewedArrayBuffer other = ViewedArrayBuffer ?e
      \<and> view_in_buffer h other \<and> j < ArrayLength other \<and> m < ByteSize k"
    then have m: "m < TypedArrayElementSize (TypedArrayName ta)" using sz by simp
    have s: "ViewedArrayBuffer ta = ViewedArrayBuffer other" using a buf by simp
    have "\<exists>old new. GetRawBytes h ta i = Some old
         \<and> GetRawBytes (SetRawBytes h other j raw) ta i = Some new
         \<and> length new = TypedArrayElementSize (TypedArrayName ta)
         \<and> new ! m =
             (if byte_position other j 0 \<le> byte_position ta i m
                 \<and> byte_position ta i m < byte_position other j 0 + length raw
              then raw ! (byte_position ta i m - byte_position other j 0)
              else old ! m)"
      using a by (intro alias_visibility' s inb i m) simp_all
    then show "\<exists>old new. GetRawBytes h ta i = Some old
         \<and> GetRawBytes (SetRawBytes h other j raw) ta i = Some new
         \<and> length new = ByteSize k
         \<and> new ! m =
             (if byte_position other j 0 \<le> byte_position ta i m
                 \<and> byte_position ta i m < byte_position other j 0 + length raw
              then raw ! (byte_position ta i m - byte_position other j 0)
              else old ! m)"
      unfolding sz .
  qed
  from buf off len wf bits frame held vals there hither show ?thesis by blast
qed

lemmas access_defs = GetRawBytes_def SetRawBytes_def IsValidIntegerIndex_def
  IsDetachedBuffer_def Let_def load_bytes_def

lemma example_run_f32:
  "asTypedArray example_toString two_buffers (tensor_of f32 (bytes_at 3 4 8)) f32
     = Inr example_floats"
  by (simp add: ex_defs two_buffers_def run_defs example_floats_def)

lemma example_run_i16:
  "asTypedArray example_toString two_buffers (tensor_of i16 (bytes_at 3 2 6)) i16
     = Inr example_shorts"
  by (simp add: ex_defs two_buffers_def run_defs example_shorts_def)

lemma example_float_bytes:
  "RawBytesToNumeric Float32Array [0, 0, 192, 63] = Number (3 / 2)"
  "RawBytesToNumeric Float32Array [1, 0, 128, 127] = NaN"
  by (simp_all add: RawBytesToNumeric_def float_of_bits_def float_value_def sign_field_def
      exponent_field_def fraction_field_def bias_def power_int_minus)

lemma example_values:
  "GetRawBytes two_buffers (bytes_at 3 4 8) 6 = Some [128]"
  "GetRawBytes (SetRawBytes two_buffers example_floats 1 [0, 0, 192, 63]) (bytes_at 3 4 8) 6
     = Some [192]"
  "GetRawBytes (SetRawBytes two_buffers (bytes_at 3 4 8) 7 [64]) example_floats 1
     = Some [0, 0, 128, 64]"
  by (simp_all add: ex_defs two_buffers_def example_floats_def access_defs eval_nat_numeral)

text \<open>At two views of buffer 3, of f32 and of i16, with buffer 0 looking on.\<close>

theorem asTypedArray_aliases_buffer_witness:
  "asTypedArray example_toString two_buffers (tensor_of f32 (bytes_at 3 4 8)) f32
     = Inr example_floats
   \<and> 1 < ArrayLength example_floats
   \<and> ViewedArrayBuffer example_floats = 3
   \<and> GetRawBytes (SetRawBytes two_buffers example_floats 1 [0, 0, 192, 63]) example_floats 1
       = Some [0, 0, 192, 63]
   \<and> SetRawBytes two_buffers example_floats 1 [0, 0, 192, 63] 0 = two_buffers 0
   \<and> RawBytesToNumeric Float32Array [0, 0, 192, 63] = Number (3 / 2)
   \<and> write_then_read two_buffers example_floats 1 (Number (3 / 2)) = Inr (Number (3 / 2))
   \<and> RawBytesToNumeric Float32Array [1, 0, 128, 127] = NaN
   \<and> write_then_read two_buffers example_floats 1 NaN = Inr NaN
   \<and> ViewedArrayBuffer (elements (tensor_of f32 (bytes_at 3 4 8)))
       = ViewedArrayBuffer example_floats
   \<and> view_in_buffer two_buffers (elements (tensor_of f32 (bytes_at 3 4 8)))
   \<and> byte_position (elements (tensor_of f32 (bytes_at 3 4 8))) 6 0
       = byte_position example_floats 1 2
   \<and> GetRawBytes two_buffers (elements (tensor_of f32 (bytes_at 3 4 8))) 6 = Some [128]
   \<and> GetRawBytes (SetRawBytes two_buffers example_floats 1 [0, 0, 192, 63])
         (elements (tensor_of f32 (bytes_at 3 4 8))) 6 = Some [192]
   \<and> GetRawBytes (SetRawBytes two_buffers (elements (tensor_of f32 (bytes_at 3 4 8))) 7 [64])
         example_floats 1 = Some [0, 0, 128, 64]
   \<and> asTypedArray example_toString two_buffers (tensor_of i16 (bytes_at 3 2 6)) i16
       = Inr example_shorts
   \<and> representable_integer Int16Array (Number (- 2))
   \<and> write_then_read two_buffers example_shorts 1 (Number (- 2)) = Inr (Number (- 2))"
proof -
  have i: "1 < ArrayLength example_floats" by (simp add: example_floats_def)
  have j: "1 < ArrayLength example_shorts" by (simp add: example_shorts_def)
  note t = asTypedArray_aliases_buffer [OF example_run_f32 i]
  note u = asTypedArray_aliases_buffer [OF example_run_i16 j]
  have e: "elements (tensor_of f32 (bytes_at 3 4 8)) = bytes_at 3 4 8"
    by (simp add: tensor_of_def Tensor_new_def)
  from t have b: "ViewedArrayBuffer example_floats
      = ViewedArrayBuffer (elements (tensor_of f32 (bytes_at 3 4 8)))"
    by blast
  from t have bits: "\<forall>raw. length raw = ByteSize f32 \<longrightarrow>
      GetRawBytes (SetRawBytes two_buffers example_floats 1 raw) example_floats 1 = Some raw"
    by blast
  from t have frame: "\<forall>raw b. b \<noteq> ViewedArrayBuffer (elements (tensor_of f32 (bytes_at 3 4 8)))
      \<longrightarrow> SetRawBytes two_buffers example_floats 1 raw b = two_buffers b"
    by blast
  from t have held: "\<forall>raw. length raw = ByteSize f32 \<longrightarrow>
      write_then_read two_buffers example_floats 1 (RawBytesToNumeric (typedArrays f32) raw)
        = Inr (RawBytesToNumeric (typedArrays f32) raw)"
    by blast
  from u have vals: "\<forall>v. representable_integer (typedArrays i16) v \<longrightarrow>
      write_then_read two_buffers example_shorts 1 v = Inr v"
    by blast
  have r: "representable_integer Int16Array (Number (- 2))"
    by (simp add: representable_integer_def is_integer_def in_range_def)
  have c1: "GetRawBytes (SetRawBytes two_buffers example_floats 1 [0, 0, 192, 63])
      example_floats 1 = Some [0, 0, 192, 63]"
    using bits by simp
  have c2: "SetRawBytes two_buffers example_floats 1 [0, 0, 192, 63] 0 = two_buffers 0"
    using frame e by (simp add: bytes_at_def)
  have "write_then_read two_buffers example_floats 1
          (RawBytesToNumeric (typedArrays f32) [0, 0, 192, 63])
        = Inr (RawBytesToNumeric (typedArrays f32) [0, 0, 192, 63])"
    using held by simp
  then have c3: "write_then_read two_buffers example_floats 1 (Number (3 / 2))
      = Inr (Number (3 / 2))"
    by (simp add: example_float_bytes)
  have "write_then_read two_buffers example_floats 1
          (RawBytesToNumeric (typedArrays f32) [1, 0, 128, 127])
        = Inr (RawBytesToNumeric (typedArrays f32) [1, 0, 128, 127])"
    using held by simp
  then have c8: "write_then_read two_buffers example_floats 1 NaN = Inr NaN"
    by (simp add: example_float_bytes)
  have c4: "write_then_read two_buffers example_shorts 1 (Number (- 2)) = Inr (Number (- 2))"
    using vals r by simp
  have c5: "view_in_buffer two_buffers (bytes_at 3 4 8)"
    by (simp add: view_in_buffer_def ex_defs two_buffers_def)
  have c6: "byte_position (bytes_at 3 4 8) 6 0 = byte_position example_floats 1 2"
    by (simp add: byte_position_def bytes_at_def example_floats_def)
  have c7: "ViewedArrayBuffer example_floats = 3"
    by (simp add: example_floats_def)
  show ?thesis
    using example_run_f32 example_run_i16 i r c1 c2 c3 c4 c5 c6 c7 c8 b example_values
      example_float_bytes e
    by simp
qed

lemma in_range_wrap: "\<not> IsFloatElementType C \<Longrightarrow> in_range C (wrap C n)"
  using ToUintN_range [of "8 * TypedArrayElementSize C" n]
    ToIntN_range [of "8 * TypedArrayElementSize C" n] ElementSize_pos [of C]
  by (simp add: in_range_def wrap_def Let_def)

lemma wrap_cong:
  "wrap C n mod 2 ^ (8 * TypedArrayElementSize C) = n mod 2 ^ (8 * TypedArrayElementSize C)"
  by (simp add: wrap_def ToIntN_cong ToUintN_def)

lemma convert_Number_wraps:
  assumes "k \<in> {i8, i16, u16, i32, u32}"
  shows "convert (typedArrays k) (Number x) =
           Inr (wrap (typedArrays k) (ToIntegerOrInfinity x))"
  using assms by (auto simp: from_Number_def wrap_def)

lemma convert_BigInt_wraps:
  assumes "k \<in> {i64, u64}"
  shows "convert (typedArrays k) (BigInt n) = Inr (wrap (typedArrays k) n)"
  using assms by (auto simp: from_BigInt_def wrap_def)

lemma ToUint8Clamp_above: "255 < x \<Longrightarrow> ToUint8Clamp x = 255"
  by (simp add: ToUint8Clamp_def)

lemma ToUint8Clamp_below: "x < 0 \<Longrightarrow> ToUint8Clamp x = 0"
  by (simp add: ToUint8Clamp_def)

text \<open>
  Claim C10. For a view declared u8 the typed array is a \<^verbatim>\<open>Uint8ClampedArray\<close>:
  a Number above 255, or positive infinity, is stored as 255 and a Number below 0,
  or negative infinity, as 0. The other integer
  kinds wrap instead: what is read back is the integer of the kind's range that is
  congruent to the (truncated) value written, modulo 2 to the number of bits, which
  is 256 for i8.
\<close>

theorem u8_writes_clamp:
  assumes ok: "asTypedArray toString h this k = Inr ta" and i: "i < ArrayLength ta"
  shows "(k = u8 \<longrightarrow>
            TypedArrayName ta = Uint8ClampedArray
          \<and> (\<forall>x. 255 < x \<longrightarrow> write_then_read h ta i (Number x) = Inr (Number 255))
          \<and> (\<forall>x. x < 0 \<longrightarrow> write_then_read h ta i (Number x) = Inr (Number 0))
          \<and> write_then_read h ta i Infinity = Inr (Number 255)
          \<and> write_then_read h ta i NegInfinity = Inr (Number 0))
       \<and> (k \<in> {i8, i16, u16, i32, u32} \<longrightarrow>
            (\<forall>x. write_then_read h ta i (Number x) =
               Inr (Number (rat_of_int (wrap (typedArrays k) (ToIntegerOrInfinity x))))))
       \<and> (k \<in> {i64, u64} \<longrightarrow>
            (\<forall>n. write_then_read h ta i (BigInt n) =
               Inr (BigInt (wrap (typedArrays k) n))))
       \<and> (k \<in> {i8, i16, u16, i32, u32, i64, u64} \<longrightarrow>
            (\<forall>n. in_range (typedArrays k) (wrap (typedArrays k) n)
               \<and> wrap (typedArrays k) n mod 2 ^ (8 * ByteSize k) = n mod 2 ^ (8 * ByteSize k)))"
proof -
  from asTypedArray_InrD [OF ok] have
    name: "TypedArrayName ta = typedArrays k" and inb: "view_in_buffer h ta"
    by simp_all
  have clamp: "k = u8 \<longrightarrow>
            TypedArrayName ta = Uint8ClampedArray
          \<and> (\<forall>x. 255 < x \<longrightarrow> write_then_read h ta i (Number x) = Inr (Number 255))
          \<and> (\<forall>x. x < 0 \<longrightarrow> write_then_read h ta i (Number x) = Inr (Number 0))
          \<and> write_then_read h ta i Infinity = Inr (Number 255)
          \<and> write_then_read h ta i NegInfinity = Inr (Number 0)"
  proof
    assume k: "k = u8"
    then have n: "TypedArrayName ta = Uint8ClampedArray" using name by simp
    have hi: "write_then_read h ta i (Number x) = Inr (Number 255)" if "255 < x" for x
    proof -
      have "convert (TypedArrayName ta) (Number x) = Inr 255"
        using n that by (simp add: from_Number_def ToUint8Clamp_above)
      moreover have "in_range (TypedArrayName ta) 255"
        using n by (simp add: in_range_def)
      ultimately show ?thesis
        using write_then_read_converted [OF inb i, of "Number x" 255] n by simp
    qed
    have lo: "write_then_read h ta i (Number x) = Inr (Number 0)" if "x < 0" for x
    proof -
      have "convert (TypedArrayName ta) (Number x) = Inr 0"
        using n that by (simp add: from_Number_def ToUint8Clamp_below)
      moreover have "in_range (TypedArrayName ta) 0"
        using n by (simp add: in_range_def)
      ultimately show ?thesis
        using write_then_read_converted [OF inb i, of "Number x" 0] n by simp
    qed
    have pinf: "write_then_read h ta i Infinity = Inr (Number 255)"
    proof -
      have "convert (TypedArrayName ta) Infinity = Inr 255"
        using n by simp
      moreover have "in_range (TypedArrayName ta) 255"
        using n by (simp add: in_range_def)
      ultimately show ?thesis
        using write_then_read_converted [OF inb i, of Infinity 255] n by simp
    qed
    have ninf: "write_then_read h ta i NegInfinity = Inr (Number 0)"
    proof -
      have "convert (TypedArrayName ta) NegInfinity = Inr 0"
        using n by (simp add: from_Number_def)
      moreover have "in_range (TypedArrayName ta) 0"
        using n by (simp add: in_range_def)
      ultimately show ?thesis
        using write_then_read_converted [OF inb i, of NegInfinity 0] n by simp
    qed
    from n hi lo pinf ninf show "TypedArrayName ta = Uint8ClampedArray
          \<and> (\<forall>x. 255 < x \<longrightarrow> write_then_read h ta i (Number x) = Inr (Number 255))
          \<and> (\<forall>x. x < 0 \<longrightarrow> write_then_read h ta i (Number x) = Inr (Number 0))
          \<and> write_then_read h ta i Infinity = Inr (Number 255)
          \<and> write_then_read h ta i NegInfinity = Inr (Number 0)"
      by blast
  qed
  have num: "k \<in> {i8, i16, u16, i32, u32} \<longrightarrow>
            (\<forall>x. write_then_read h ta i (Number x) =
               Inr (Number (rat_of_int (wrap (typedArrays k) (ToIntegerOrInfinity x)))))"
  proof (intro impI allI)
    fix x assume k: "k \<in> {i8, i16, u16, i32, u32}"
    have nf: "\<not> IsFloatElementType (typedArrays k)" and nb: "\<not> IsBigIntElementType (typedArrays k)"
      using k by auto
    have c: "convert (TypedArrayName ta) (Number x) =
               Inr (wrap (typedArrays k) (ToIntegerOrInfinity x))"
      using convert_Number_wraps [OF k] name by simp
    have r: "in_range (TypedArrayName ta) (wrap (typedArrays k) (ToIntegerOrInfinity x))"
      using in_range_wrap [OF nf] name by simp
    show "write_then_read h ta i (Number x) =
               Inr (Number (rat_of_int (wrap (typedArrays k) (ToIntegerOrInfinity x))))"
      using write_then_read_converted [OF inb i c r] nb nf name by simp
  qed
  have big: "k \<in> {i64, u64} \<longrightarrow>
            (\<forall>n. write_then_read h ta i (BigInt n) =
               Inr (BigInt (wrap (typedArrays k) n)))"
  proof (intro impI allI)
    fix n assume k: "k \<in> {i64, u64}"
    have nf: "\<not> IsFloatElementType (typedArrays k)" and b: "IsBigIntElementType (typedArrays k)"
      using k by auto
    have c: "convert (TypedArrayName ta) (BigInt n) = Inr (wrap (typedArrays k) n)"
      using convert_BigInt_wraps [OF k] name by simp
    have r: "in_range (TypedArrayName ta) (wrap (typedArrays k) n)"
      using in_range_wrap [OF nf] name by simp
    show "write_then_read h ta i (BigInt n) = Inr (BigInt (wrap (typedArrays k) n))"
      using write_then_read_converted [OF inb i c r] b nf name by simp
  qed
  have wraps: "k \<in> {i8, i16, u16, i32, u32, i64, u64} \<longrightarrow>
            (\<forall>n. in_range (typedArrays k) (wrap (typedArrays k) n)
               \<and> wrap (typedArrays k) n mod 2 ^ (8 * ByteSize k) = n mod 2 ^ (8 * ByteSize k))"
  proof (intro impI allI)
    fix n assume k: "k \<in> {i8, i16, u16, i32, u32, i64, u64}"
    have nf: "\<not> IsFloatElementType (typedArrays k)" using k by auto
    show "in_range (typedArrays k) (wrap (typedArrays k) n)
               \<and> wrap (typedArrays k) n mod 2 ^ (8 * ByteSize k) = n mod 2 ^ (8 * ByteSize k)"
      using in_range_wrap [OF nf, of n] wrap_cong [of "typedArrays k" n]
      by (simp add: ByteSize_typedArrays)
  qed
  from clamp num big wraps show ?thesis by blast
qed

lemma example_run_u8:
  "asTypedArray example_toString example_heap (tensor_of u8 (bytes_at 0 2 6)) u8
     = Inr example_clamped"
  by (simp add: ex_defs run_defs example_clamped_def)

lemma example_run_i8:
  "asTypedArray example_toString example_heap (tensor_of i8 (bytes_at 0 2 6)) i8
     = Inr example_int8"
  by (simp add: ex_defs run_defs example_int8_def)

theorem u8_writes_clamp_witness:
  "asTypedArray example_toString example_heap (tensor_of u8 (bytes_at 0 2 6)) u8
     = Inr example_clamped
   \<and> 1 < ArrayLength example_clamped
   \<and> write_then_read example_heap example_clamped 1 (Number 300) = Inr (Number 255)
   \<and> write_then_read example_heap example_clamped 1 (Number (- 5)) = Inr (Number 0)
   \<and> asTypedArray example_toString example_heap (tensor_of i8 (bytes_at 0 2 6)) i8
       = Inr example_int8
   \<and> write_then_read example_heap example_int8 1 (Number 300) = Inr (Number 44)"
proof -
  have i: "1 < ArrayLength example_clamped" by (simp add: example_clamped_def)
  have j: "1 < ArrayLength example_int8" by (simp add: example_int8_def)
  from u8_writes_clamp [OF example_run_u8 i] have
    hi: "\<forall>x. 255 < x \<longrightarrow>
      write_then_read example_heap example_clamped 1 (Number x) = Inr (Number 255)"
    and lo: "\<forall>x. x < 0 \<longrightarrow>
      write_then_read example_heap example_clamped 1 (Number x) = Inr (Number 0)"
    by simp_all
  from u8_writes_clamp [OF example_run_i8 j] have
    "\<forall>x. write_then_read example_heap example_int8 1 (Number x) =
       Inr (Number (rat_of_int (wrap (typedArrays i8) (ToIntegerOrInfinity x))))"
    by simp
  then have w: "write_then_read example_heap example_int8 1 (Number 300) =
       Inr (Number (rat_of_int (wrap Int8Array (ToIntegerOrInfinity 300))))"
    by simp
  have "wrap Int8Array (ToIntegerOrInfinity 300) = 44"
    by (simp add: wrap_def ToIntN_def ToIntegerOrInfinity_def)
  with w have "write_then_read example_heap example_int8 1 (Number 300) = Inr (Number 44)"
    by simp
  moreover from hi have
    "write_then_read example_heap example_clamped 1 (Number 300) = Inr (Number 255)"
    by simp
  moreover from lo have
    "write_then_read example_heap example_clamped 1 (Number (- 5)) = Inr (Number 0)"
    by simp
  ultimately show ?thesis using example_run_u8 example_run_i8 i by simp
qed

end
